theory Spec2Isabelle
  imports Complex_Main "HOL-Library.Sublist" "HOL-Library.AList"
begin

section \<open>Exceptions and effects\<close>

text \<open>
  The scraper is a Python class whose methods talk to the network, read the clock and
  sleep. The model makes these effects explicit. An exception is a value of type
  \<open>exn\<close>: the code distinguishes only \<open>requests.RequestException\<close> (retried by
  \<open>get_page\<close>) from every other subclass of \<open>Exception\<close>.
\<close>

datatype exn = RequestException | OtherException

text \<open>
  What \<open>self.session.get(url, timeout=10)\<close> followed by \<open>response.raise_for_status()\<close>
  does: it yields the content of a response, or raises.
\<close>

datatype 'c http_result = Response 'c | Failed exn

text \<open>
  The network is a state \<open>'w\<close> that every request may change; a session maps a URL and
  the state before the request to the result and the state after it.
\<close>

type_synonym ('w, 'c) session = "string \<Rightarrow> 'w \<Rightarrow> 'c http_result \<times> 'w"

text \<open>The observable effects, in the order they happen.\<close>

datatype event = Request string | Sleep int

section \<open>get_page\<close>

text \<open>
  \<^verbatim>\<open>
  def get_page(self, url, retries=3):
      for attempt in range(retries):
          try:
              response = self.session.get(url, timeout=10)
              response.raise_for_status()
              return response
          except requests.RequestException as e:
              if attempt < retries - 1:
                  time.sleep(2 ** attempt)
              else:
                  raise
  \<close>
  The loop runs over the list \<open>range(retries)\<close>. Its result is \<open>Inl e\<close> when \<open>e\<close> is
  raised, \<open>Inr (Some r)\<close> when the response \<open>r\<close> is returned and \<open>Inr None\<close> when the
  loop ends without a \<open>return\<close> and the method returns \<open>None\<close>.
\<close>

fun get_page_loop ::
  "('w, 'c) session \<Rightarrow> string \<Rightarrow> int \<Rightarrow> nat list \<Rightarrow> 'w \<Rightarrow> (exn + 'c option) \<times> event list \<times> 'w"
where
  "get_page_loop session url retries [] w = (Inr None, [], w)"
| "get_page_loop session url retries (attempt # rest) w =
     (case session url w of
        (Response r, w') \<Rightarrow> (Inr (Some r), [Request url], w')
      | (Failed e, w') \<Rightarrow>
          (case e of
             RequestException \<Rightarrow>
               if int attempt < retries - 1
               then (case get_page_loop session url retries rest w' of
                       (res, evs, w'') \<Rightarrow> (res, Request url # Sleep (2 ^ attempt) # evs, w''))
               else (Inl RequestException, [Request url], w')
           | OtherException \<Rightarrow> (Inl OtherException, [Request url], w')))"

definition range_py :: "int \<Rightarrow> nat list" where
  "range_py n = [0 ..< nat n]"

definition get_page ::
  "('w, 'c) session \<Rightarrow> string \<Rightarrow> int \<Rightarrow> 'w \<Rightarrow> (exn + 'c option) \<times> event list \<times> 'w"
where
  "get_page session url retries w = get_page_loop session url retries (range_py retries) w"

text \<open>
  To state what the retry loop does: the state of the network after \<open>k\<close> requests of
  \<open>url\<close>, whether the \<open>k\<close>-th request (counted from 0) fails with a
  \<open>RequestException\<close>, and the events of the failed attempts \<open>i, \<dots>, k - 1\<close>, each
  followed by its back-off sleep.
\<close>

definition world_after :: "('w, 'c) session \<Rightarrow> string \<Rightarrow> nat \<Rightarrow> 'w \<Rightarrow> 'w" where
  "world_after session url k w = ((\<lambda>v. snd (session url v)) ^^ k) w"

definition attempt_fails :: "('w, 'c) session \<Rightarrow> string \<Rightarrow> 'w \<Rightarrow> nat \<Rightarrow> bool" where
  "attempt_fails session url w k =
     (fst (session url (world_after session url k w)) = Failed RequestException)"

definition failed_attempts :: "string \<Rightarrow> nat \<Rightarrow> nat \<Rightarrow> event list" where
  "failed_attempts url i k = concat (map (\<lambda>a. [Request url, Sleep (2 ^ a)]) [i ..< k])"

text \<open>
  Two sample networks whose state counts the requests made: one where every request
  fails, one where the requests fail until \<open>k\<close> of them have been made.
\<close>

definition always_down :: "(nat, string) session" where
  "always_down url w = (Failed RequestException, Suc w)"

definition up_from :: "nat \<Rightarrow> (nat, string) session" where
  "up_from k url w =
     (if w < k then Failed RequestException else Response (''page of '' @ url), Suc w)"

section \<open>Strings and regular expressions\<close>

text \<open>
  A Python \<open>str\<close> is modelled as a list of characters. The model covers ASCII text:
  \<open>lower\<close> folds the letters A to Z, \<open>isspace\<close> holds of the ASCII characters for which
  \<open>str.isspace\<close> holds (also what \<open>\s\<close> matches), and \<open>isdigit\<close> of 0 to 9 (what
  \<open>\d\<close> matches there).
\<close>

definition isdigit :: "char \<Rightarrow> bool" where
  "isdigit c = (c \<in> set ''0123456789'')"

definition isspace :: "char \<Rightarrow> bool" where
  "isspace c = (c \<in> set [CHR 0x09, CHR 0x0A, CHR 0x0B, CHR 0x0C, CHR 0x0D,
                           CHR 0x1C, CHR 0x1D, CHR 0x1E, CHR 0x1F, CHR '' ''])"

definition lower_char :: "char \<Rightarrow> char" where
  "lower_char c =
     (case map_of (zip ''ABCDEFGHIJKLMNOPQRSTUVWXYZ'' ''abcdefghijklmnopqrstuvwxyz'') c of
        Some d \<Rightarrow> d
      | None \<Rightarrow> c)"

definition lower :: "string \<Rightarrow> string" where
  "lower s = map lower_char s"

text \<open>\<open>s.strip()\<close>: white space removed at both ends.\<close>

definition lstrip :: "string \<Rightarrow> string" where
  "lstrip s = dropWhile isspace s"

definition rstrip :: "string \<Rightarrow> string" where
  "rstrip s = rev (dropWhile isspace (rev s))"

definition strip :: "string \<Rightarrow> string" where
  "strip s = rstrip (lstrip s)"

text \<open>\<open>sub in s\<close> for strings: \<open>sub\<close> occurs in \<open>s\<close> as a contiguous substring.\<close>

fun contains :: "string \<Rightarrow> string \<Rightarrow> bool" where
  "contains sub [] = (sub = [])"
| "contains sub (c # cs) = (prefix sub (c # cs) \<or> contains sub cs)"

text \<open>
  \<open>re.compile(r'w1|w2|...').search(s)\<close> for literal words: one of the words occurs
  in \<open>s\<close>. Only whether there is a match is ever used of these patterns.
\<close>

definition search_words :: "string list \<Rightarrow> string \<Rightarrow> bool" where
  "search_words ws s = list_ex (\<lambda>w. contains w s) ws"

text \<open>\<open>int(s)\<close> for a string of decimal digits, and \<open>str(n)\<close> for a natural number.\<close>

definition digit_val :: "char \<Rightarrow> nat" where
  "digit_val c = of_char c - 48"

definition int_py :: "string \<Rightarrow> nat" where
  "int_py s = foldl (\<lambda>a c. 10 * a + digit_val c) 0 s"

definition digit_char :: "nat \<Rightarrow> char" where
  "digit_char d = ''0123456789'' ! d"

fun str_py :: "nat \<Rightarrow> string" where
  "str_py n = (if n < 10 then [digit_char n] else str_py (n div 10) @ [digit_char (n mod 10)])"

declare str_py.simps [simp del]

text \<open>
  \<open>re.search(r'(\d+)', s)\<close>: the first maximal run of digits, if any (group 1).
\<close>

definition search_digits :: "string \<Rightarrow> string option" where
  "search_digits s =
     (let t = dropWhile (\<lambda>c. \<not> isdigit c) s in
      if t = [] then None else Some (takeWhile isdigit t))"

text \<open>
  \<open>re.search(r'(\d+)\s*(hour|hours|day|days|week|weeks|month|months)', s)\<close>.
  \<open>match_time_here\<close> matches the pattern at the start of a string: the longest run of
  digits (at least one), the white space after it, then the first of the alternatives, in
  the order of the pattern, that the rest starts with. The regular expression engine
  would also try shorter runs of digits or of white space, but those leave a digit or a
  white space character next, which no alternative starts with, so the greedy match is
  the only one. \<open>search_time\<close> tries the start positions from left to right and returns
  the groups 1 and 2 of the first match.
\<close>

definition unit_words :: "string list" where
  "unit_words = [''hour'', ''hours'', ''day'', ''days'', ''week'', ''weeks'', ''month'', ''months'']"

definition match_time_here :: "string \<Rightarrow> (string \<times> string) option" where
  "match_time_here s =
     (let ds = takeWhile isdigit s in
      if ds = [] then None
      else (case find (\<lambda>u. prefix u (dropWhile isspace (dropWhile isdigit s))) unit_words of
              None \<Rightarrow> None
            | Some u \<Rightarrow> Some (ds, u)))"

fun search_time :: "string \<Rightarrow> (string \<times> string) option" where
  "search_time [] = None"
| "search_time (c # cs) =
     (case match_time_here (c # cs) of
        Some g \<Rightarrow> Some g
      | None \<Rightarrow> search_time cs)"

section \<open>The clock, dates and time deltas\<close>

text \<open>
  The library types the code computes dates with, as far as the code uses them.

  A \<open>datetime\<close> is the number of microseconds since 0001-01-01 00:00:00 in the
  proleptic Gregorian calendar; Python's range of dates ends with the year 9999.

  \<open>pd.Timedelta(days=d)\<close> holds a signed 64 bit number of nanoseconds and raises an
  \<open>OverflowError\<close> beyond that range (a little under 106752 days). The argument is the
  Python number \<open>number * time_mapping[unit]\<close>, an \<open>int\<close> for days, weeks and months and a
  \<open>float\<close> for hours; the model takes it as a rational number, so the rounding of the
  floating point product \<open>number * (1/24)\<close> is left out.

  \<open>datetime - Timedelta\<close> subtracts the whole microseconds of the delta and raises an
  \<open>OverflowError\<close> when the result is not a date of the years 1 to 9999.
\<close>

type_synonym datetime = int

definition max_datetime :: int where
  "max_datetime = 3652059 * 86400000000"

definition trunc :: "rat \<Rightarrow> int" where
  "trunc x = (if 0 \<le> x then \<lfloor>x\<rfloor> else \<lceil>x\<rceil>)"

definition Timedelta_days :: "rat \<Rightarrow> exn + int" where
  "Timedelta_days d =
     (let ns = trunc (d * 24 * 3600 * 1000000000) in
      if - (2 ^ 63) < ns \<and> ns < 2 ^ 63 then Inr ns else Inl OtherException)"

definition datetime_sub :: "datetime \<Rightarrow> int \<Rightarrow> exn + datetime" where
  "datetime_sub t ns =
     (let r = t - ns div 1000 in
      if 0 \<le> r \<and> r < max_datetime then Inr r else Inl OtherException)"

text \<open>
  The calendar: the day number \<open>n\<close> (0 for 0001-01-01) as year, month and day, and
  back. Both count days from the first of March of the year 0, 306 days earlier, in
  cycles of 400 years (146097 days).
\<close>

definition ord2ymd :: "int \<Rightarrow> int \<times> int \<times> int" where
  "ord2ymd n =
     (let z = n + 306;
          era = z div 146097;
          doe = z mod 146097;
          yoe = (doe - doe div 1460 + doe div 36524 - doe div 146096) div 365;
          doy = doe - (365 * yoe + yoe div 4 - yoe div 100);
          mp = (5 * doy + 2) div 153;
          d = doy - (153 * mp + 2) div 5 + 1;
          m = (if mp < 10 then mp + 3 else mp - 9);
          y = yoe + era * 400 + (if m \<le> 2 then 1 else 0)
      in (y, m, d))"

definition ymd2ord :: "int \<Rightarrow> int \<Rightarrow> int \<Rightarrow> int" where
  "ymd2ord y m d =
     (let y' = (if m \<le> 2 then y - 1 else y);
          era = y' div 400;
          yoe = y' mod 400;
          doy = (153 * (if 2 < m then m - 3 else m + 9) + 2) div 5 + d - 1;
          doe = yoe * 365 + yoe div 4 - yoe div 100 + doy
      in era * 146097 + doe - 306)"

text \<open>\<open>datetime(y, m, d, hh, mm, ss)\<close>.\<close>

definition datetime_of :: "int \<Rightarrow> int \<Rightarrow> int \<Rightarrow> int \<Rightarrow> int \<Rightarrow> int \<Rightarrow> datetime" where
  "datetime_of y m d hh mm ss =
     (ymd2ord y m d * 86400 + hh * 3600 + mm * 60 + ss) * 1000000"

text \<open>\<open>t.strftime('%d-%m-%Y')\<close>: day and month with two digits, the year with four.\<close>

definition zero_pad :: "nat \<Rightarrow> int \<Rightarrow> string" where
  "zero_pad width n = replicate (width - length (str_py (nat n))) CHR ''0'' @ str_py (nat n)"

definition strftime_dmY :: "datetime \<Rightarrow> string" where
  "strftime_dmY t =
     (case ord2ymd (t div 86400000000) of
        (y, m, d) \<Rightarrow> zero_pad 2 d @ ''-'' @ zero_pad 2 m @ ''-'' @ zero_pad 4 y)"

section \<open>parse_time_ago\<close>

text \<open>
  \<^verbatim>\<open>
  def parse_time_ago(self, time_str):
      if not time_str:
          return ""
      time_str = time_str.lower().strip()
      time_mapping = {'hour': 1/24, 'hours': 1/24, 'day': 1, 'days': 1,
                      'week': 7, 'weeks': 7, 'month': 30, 'months': 30}
      match = re.search(r'(\d+)\s*(hour|hours|day|days|week|weeks|month|months)', time_str)
      if match:
          number = int(match.group(1))
          unit = match.group(2)
          if unit in time_mapping:
              days_ago = number * time_mapping[unit]
              target_date = datetime.now() - pd.Timedelta(days=days_ago)
              return target_date.strftime('%d-%m-%Y')
      return time_str
  \<close>
  The reading \<open>now\<close> of the clock is a parameter. The result is \<open>Inl e\<close> when the date
  arithmetic raises.
\<close>

definition time_mapping :: "(string \<times> rat) list" where
  "time_mapping =
     [(''hour'', 1 / 24), (''hours'', 1 / 24), (''day'', 1), (''days'', 1),
      (''week'', 7), (''weeks'', 7), (''month'', 30), (''months'', 30)]"

definition parse_time_ago :: "datetime \<Rightarrow> string \<Rightarrow> exn + string" where
  "parse_time_ago now time_str0 =
     (if time_str0 = [] then Inr []
      else
        let time_str = strip (lower time_str0) in
        (case search_time time_str of
           Some (num, unit) \<Rightarrow>
             (let number = int_py num in
              case map_of time_mapping unit of
                Some per_unit \<Rightarrow>
                  (let days_ago = of_nat number * per_unit in
                   case Timedelta_days days_ago of
                     Inl e \<Rightarrow> Inl e
                   | Inr delta \<Rightarrow>
                       (case datetime_sub now delta of
                          Inl e \<Rightarrow> Inl e
                        | Inr target_date \<Rightarrow> Inr (strftime_dmY target_date)))
              | None \<Rightarrow> Inr time_str)
         | None \<Rightarrow> Inr time_str))"

section \<open>The parse tree\<close>

text \<open>
  What \<open>BeautifulSoup(response.content, 'html.parser')\<close> builds, as far as the scraper
  looks at it: a tree of tags, each with a name, attributes and children, and of text
  nodes. The document itself is a tag whose children are the top-level nodes. The value
  of an attribute is kept as the string written in the markup.
\<close>

datatype node = Tag string "(string \<times> string) list" "node list" | NavigableString string

fun tag_name :: "node \<Rightarrow> string option" where
  "tag_name (Tag name attrs children) = Some name"
| "tag_name (NavigableString s) = None"

text \<open>\<open>tag.get(key)\<close>: the value of an attribute, \<open>None\<close> when the tag has none of that name.\<close>

fun get_attr :: "node \<Rightarrow> string \<Rightarrow> string option" where
  "get_attr (Tag name attrs children) key = map_of attrs key"
| "get_attr (NavigableString s) key = None"

text \<open>\<open>tag.descendants\<close>: all nodes below a tag, in document order.\<close>

fun descendants :: "node \<Rightarrow> node list" where
  "descendants (Tag name attrs children) = concat (map (\<lambda>c. c # descendants c) children)"
| "descendants (NavigableString s) = []"

text \<open>
  \<open>tag.string\<close>: the text of a tag whose only child is a text node, or a tag with such a
  \<open>string\<close>; \<open>None\<close> when the tag has no child or several.
\<close>

fun string_of :: "node \<Rightarrow> string option" where
  "string_of (NavigableString s) = Some s"
| "string_of (Tag name attrs [c]) = string_of c"
| "string_of (Tag name attrs children) = None"

text \<open>
  \<open>tag.get_text(strip=True)\<close>: the texts below the tag, each stripped, the empty ones
  dropped, joined without a separator.
\<close>

fun texts :: "node \<Rightarrow> string list" where
  "texts (NavigableString s) = [s]"
| "texts (Tag name attrs children) = concat (map texts children)"

definition get_text :: "node \<Rightarrow> string" where
  "get_text el = concat (filter (\<lambda>t. t \<noteq> []) (map strip (texts el)))"

text \<open>
  The searches. \<open>el.find(...)\<close> returns the first descendant that matches, \<open>None\<close> when
  there is none, and \<open>el.find_all(...)\<close> all of them, in document order. A tag matches
  \<^item> a name or a list of names when its name is one of them;
  \<^item> \<open>href=True\<close> when it has an attribute \<open>href\<close>;
  \<^item> \<open>class_=re.compile(r'w1|w2|...')\<close> when it has an attribute \<open>class\<close> in which one of
    the words occurs (the library tries each class of the attribute and then all of them
    joined by blanks; for words without white space that is an occurrence in the
    attribute's value);
  \<^item> \<open>string=re.compile(r'w1|w2|...')\<close> when its \<open>string\<close> is not \<open>None\<close> and one of the
    words occurs in it.
  A tag object is true in a condition whatever its content, so \<open>if elem:\<close> tests that
  something was found.
\<close>

definition named :: "string list \<Rightarrow> node \<Rightarrow> bool" where
  "named names el = (case tag_name el of None \<Rightarrow> False | Some n \<Rightarrow> n \<in> set names)"

definition has_class :: "string list \<Rightarrow> node \<Rightarrow> bool" where
  "has_class ws el = (case get_attr el ''class'' of None \<Rightarrow> False | Some v \<Rightarrow> search_words ws v)"

definition has_string :: "string list \<Rightarrow> node \<Rightarrow> bool" where
  "has_string ws el = (case string_of el of None \<Rightarrow> False | Some s \<Rightarrow> search_words ws s)"

definition find_class :: "string list \<Rightarrow> string list \<Rightarrow> node \<Rightarrow> node option" where
  "find_class names ws el = find (\<lambda>d. named names d \<and> has_class ws d) (descendants el)"

definition find_string :: "string list \<Rightarrow> string list \<Rightarrow> node \<Rightarrow> node option" where
  "find_string names ws el = find (\<lambda>d. named names d \<and> has_string ws d) (descendants el)"

definition find_named :: "string list \<Rightarrow> node \<Rightarrow> node option" where
  "find_named names el = find (named names) (descendants el)"

definition find_a_href :: "node \<Rightarrow> node option" where
  "find_a_href el = find (\<lambda>d. named [''a''] d \<and> get_attr d ''href'' \<noteq> None) (descendants el)"

definition find_all_class :: "string list \<Rightarrow> string list \<Rightarrow> node \<Rightarrow> node list" where
  "find_all_class names ws el = filter (\<lambda>d. named names d \<and> has_class ws d) (descendants el)"


text \<open>
  The patterns of the code that are not lists of words:
  \<open>re.search(r'ID([^&]+)', href)\<close>, the first place where \<open>ID\<close> is followed by a character
  other than \<open>&\<close>, with group 1 the run of such characters; and
  \<open>re.search(r'p=\d+', href)\<close>, whether \<open>p=\<close> occurs followed by a digit.
\<close>

fun search_ID :: "string \<Rightarrow> string option" where
  "search_ID [] = None"
| "search_ID (c # cs) =
     (let g = takeWhile (\<lambda>x. x \<noteq> CHR ''&'') (drop 2 (c # cs)) in
      if prefix ''ID'' (c # cs) \<and> g \<noteq> [] then Some g else search_ID cs)"


text \<open>
  \<open>urllib.parse.urljoin\<close> is a parameter of the model: a function of the base and the
  reference that returns the joined URL or raises (a \<open>ValueError\<close>, for instance on a
  reference with an unbalanced bracket in its host).
\<close>

type_synonym urljoin = "string \<Rightarrow> string \<Rightarrow> exn + string"

section \<open>extract_rfq_data\<close>

text \<open>
  A record is the Python dictionary \<open>data\<close>: a list of keys with their values, in the
  order of insertion. Assigning to a key that is there replaces its value in place. All
  values the code stores are strings.
\<close>

type_synonym rfq = "(string \<times> string) list"

definition base_url :: string where
  "base_url = ''https://sourcing.alibaba.com''"

definition initial_data :: "datetime \<Rightarrow> rfq" where
  "initial_data now =
     [(''RFQ ID'', ''''), (''Title'', ''''), (''Buyer Name'', ''''), (''Buyer Image'', ''''),
      (''Inquiry Time'', ''''), (''Quotes Left'', ''''), (''Country'', ''''),
      (''Quantity Required'', ''''), (''Email Confirmed'', ''No''),
      (''Experienced Buyer'', ''No''), (''Complete Order via RFQ'', ''No''),
      (''Typical Replies'', ''No''), (''Interactive User'', ''No''), (''Inquiry URL'', ''''),
      (''Inquiry Date'', ''''), (''Scraping Date'', strftime_dmY now)]"

text \<open>
  The body of the \<open>try\<close> block is a sequence of steps on \<open>data\<close>. A step returns the
  dictionary as it has left it, and the exception it raised, if any; an exception ends
  the sequence.
\<close>

type_synonym step = "rfq \<Rightarrow> rfq \<times> exn option"

fun run_steps :: "step list \<Rightarrow> rfq \<Rightarrow> rfq \<times> exn option" where
  "run_steps [] data = (data, None)"
| "run_steps (s # ss) data =
     (case s data of
        (data', None) \<Rightarrow> run_steps ss data'
      | (data', Some e) \<Rightarrow> (data', Some e))"

text \<open>
  \<^verbatim>\<open>
  link_elem = rfq_element.find('a', href=True)
  if link_elem:
      href = link_elem['href']
      data['Inquiry URL'] = urljoin(self.base_url, href)
      if 'ID' in href:
          match = re.search(r'ID([^&]+)', href)
          if match:
              data['RFQ ID'] = match.group(1)
  \<close>
\<close>

definition link_step :: "urljoin \<Rightarrow> node \<Rightarrow> step" where
  "link_step urljoin rfq_element data =
     (case find_a_href rfq_element of
        None \<Rightarrow> (data, None)
      | Some link_elem \<Rightarrow>
          (case get_attr link_elem ''href'' of
             None \<Rightarrow> (data, Some OtherException)
           | Some href \<Rightarrow>
               (case urljoin base_url href of
                  Inl e \<Rightarrow> (data, Some e)
                | Inr url \<Rightarrow>
                    (let data1 = AList.update ''Inquiry URL'' url data in
                     if contains ''ID'' href
                     then (case search_ID href of
                             Some g \<Rightarrow> (AList.update ''RFQ ID'' g data1, None)
                           | None \<Rightarrow> (data1, None))
                     else (data1, None)))))"

text \<open>
  \<^verbatim>\<open>
  title_elem = rfq_element.find(['h3', 'h4', 'span'], class_=re.compile(r'title|subject'))
  if not title_elem:
      title_elem = rfq_element.find('a')
  if title_elem:
      data['Title'] = title_elem.get_text(strip=True)
  \<close>
\<close>

definition title_step :: "node \<Rightarrow> step" where
  "title_step rfq_element data =
     (let title_elem =
            (case find_class [''h3'', ''h4'', ''span''] [''title'', ''subject''] rfq_element of
               None \<Rightarrow> find_named [''a''] rfq_element
             | Some t \<Rightarrow> Some t)
      in case title_elem of
           None \<Rightarrow> (data, None)
         | Some t \<Rightarrow> (AList.update ''Title'' (get_text t) data, None))"

text \<open>
  \<^verbatim>\<open>
  buyer_elem = rfq_element.find(['span', 'div'], class_=re.compile(r'buyer|user|name'))
  if buyer_elem:
      data['Buyer Name'] = buyer_elem.get_text(strip=True)
  \<close>
  and likewise, with other words, for \<open>data['Country']\<close>.
\<close>

definition class_text_step :: "string \<Rightarrow> string list \<Rightarrow> node \<Rightarrow> step" where
  "class_text_step key ws rfq_element data =
     (case find_class [''span'', ''div''] ws rfq_element of
        None \<Rightarrow> (data, None)
      | Some elem \<Rightarrow> (AList.update key (get_text elem) data, None))"

text \<open>
  \<^verbatim>\<open>
  img_elem = rfq_element.find('img')
  if img_elem and img_elem.get('src'):
      data['Buyer Image'] = img_elem['src']
  \<close>
\<close>

definition image_step :: "node \<Rightarrow> step" where
  "image_step rfq_element data =
     (case find_named [''img''] rfq_element of
        None \<Rightarrow> (data, None)
      | Some img_elem \<Rightarrow>
          (case get_attr img_elem ''src'' of
             None \<Rightarrow> (data, None)
           | Some src \<Rightarrow>
               if src \<noteq> [] then (AList.update ''Buyer Image'' src data, None) else (data, None)))"

text \<open>
  \<^verbatim>\<open>
  time_elem = rfq_element.find(['span', 'div'],
                               string=re.compile(r'ago|before|hour|day|week|month'))
  if time_elem:
      time_text = time_elem.get_text(strip=True)
      data['Inquiry Time'] = time_text
      data['Inquiry Date'] = self.parse_time_ago(time_text)
  \<close>
\<close>

definition time_step :: "datetime \<Rightarrow> node \<Rightarrow> step" where
  "time_step now rfq_element data =
     (case find_string [''span'', ''div'']
             [''ago'', ''before'', ''hour'', ''day'', ''week'', ''month''] rfq_element of
        None \<Rightarrow> (data, None)
      | Some time_elem \<Rightarrow>
          (let time_text = get_text time_elem;
               data1 = AList.update ''Inquiry Time'' time_text data
           in case parse_time_ago now time_text of
                Inl e \<Rightarrow> (data1, Some e)
              | Inr date \<Rightarrow> (AList.update ''Inquiry Date'' date data1, None)))"

text \<open>
  \<^verbatim>\<open>
  quotes_elem = rfq_element.find(['span', 'div'], string=re.compile(r'quote|left'))
  if quotes_elem:
      quotes_text = quotes_elem.get_text(strip=True)
      match = re.search(r'(\d+)', quotes_text)
      if match:
          data['Quotes Left'] = match.group(1)
  \<close>
\<close>

definition quotes_step :: "node \<Rightarrow> step" where
  "quotes_step rfq_element data =
     (case find_string [''span'', ''div''] [''quote'', ''left''] rfq_element of
        None \<Rightarrow> (data, None)
      | Some quotes_elem \<Rightarrow>
          (case search_digits (get_text quotes_elem) of
             None \<Rightarrow> (data, None)
           | Some g \<Rightarrow> (AList.update ''Quotes Left'' g data, None)))"

text \<open>
  \<^verbatim>\<open>
  quantity_elem = rfq_element.find(['span', 'div'],
                                   string=re.compile(r'piece|pcs|unit|box|kg|ton'))
  if quantity_elem:
      quantity_text = quantity_elem.get_text(strip=True)
      data['Quantity Required'] = quantity_text
  \<close>
\<close>

definition quantity_step :: "node \<Rightarrow> step" where
  "quantity_step rfq_element data =
     (case find_string [''span'', ''div'']
             [''piece'', ''pcs'', ''unit'', ''box'', ''kg'', ''ton''] rfq_element of
        None \<Rightarrow> (data, None)
      | Some quantity_elem \<Rightarrow>
          (AList.update ''Quantity Required'' (get_text quantity_elem) data, None))"

text \<open>
  \<^verbatim>\<open>
  if rfq_element.find(['span', 'div', 'i'], class_=re.compile(r'email|confirm|verified')):
      data['Email Confirmed'] = 'Yes'
  \<close>
  and likewise for the other four flags.
\<close>

definition flag_step :: "string \<Rightarrow> string list \<Rightarrow> node \<Rightarrow> step" where
  "flag_step key ws rfq_element data =
     (case find_class [''span'', ''div'', ''i''] ws rfq_element of
        None \<Rightarrow> (data, None)
      | Some elem \<Rightarrow> (AList.update key ''Yes'' data, None))"

text \<open>
  The method: the dictionary of defaults, the steps in the order of the source inside
  \<open>try\<close>, and \<open>except Exception\<close>, which logs the error; either way the method goes on
  to \<open>return data\<close>. The result is \<open>Inr data\<close> for a return; \<open>Inl e\<close> would be an exception
  that leaves the method.
\<close>

definition extract_steps :: "urljoin \<Rightarrow> datetime \<Rightarrow> node \<Rightarrow> step list" where
  "extract_steps urljoin now rfq_element =
     [link_step urljoin rfq_element,
      title_step rfq_element,
      class_text_step ''Buyer Name'' [''buyer'', ''user'', ''name''] rfq_element,
      image_step rfq_element,
      time_step now rfq_element,
      quotes_step rfq_element,
      class_text_step ''Country'' [''country'', ''flag''] rfq_element,
      quantity_step rfq_element,
      flag_step ''Email Confirmed'' [''email'', ''confirm'', ''verified''] rfq_element,
      flag_step ''Experienced Buyer'' [''experienced'', ''veteran'', ''star''] rfq_element,
      flag_step ''Complete Order via RFQ'' [''complete'', ''order'', ''rfq''] rfq_element,
      flag_step ''Typical Replies'' [''typical'', ''reply'', ''response''] rfq_element,
      flag_step ''Interactive User'' [''interactive'', ''active'', ''online''] rfq_element]"

definition extract_rfq_data :: "urljoin \<Rightarrow> datetime \<Rightarrow> node \<Rightarrow> exn + rfq" where
  "extract_rfq_data urljoin now rfq_element =
     (case run_steps (extract_steps urljoin now rfq_element) (initial_data now) of
        (data, None) \<Rightarrow> Inr data
      | (data, Some e) \<Rightarrow> Inr data)"

section \<open>scrape_rfq_page\<close>

text \<open>
  \<^verbatim>\<open>
  def scrape_rfq_page(self, url):
      try:
          response = self.get_page(url)
          soup = BeautifulSoup(response.content, 'html.parser')
          rfq_containers = soup.find_all(['div', 'li'],
                                         class_=re.compile(r'rfq|item|card|inquiry|request'))
          if not rfq_containers:
              rfq_containers = soup.find_all(['div', 'li'], class_=re.compile(r'list|item|card'))
          rfq_data = []
          for container in rfq_containers:
              if not container.find('a', href=True):
                  continue
              data = self.extract_rfq_data(container)
              if data['Title']:
                  rfq_data.append(data)
          return rfq_data
      except Exception as e:
          logger.error(f"Error scraping page {url}: {e}")
          return []
  \<close>
  The loop over the containers, with the list \<open>rfq_data\<close> built so far; \<open>data['Title']\<close>
  raises a \<open>KeyError\<close> when the dictionary has no such key.
\<close>

fun scan_containers :: "urljoin \<Rightarrow> datetime \<Rightarrow> node list \<Rightarrow> rfq list \<Rightarrow> exn + rfq list" where
  "scan_containers urljoin now [] rfq_data = Inr rfq_data"
| "scan_containers urljoin now (container # rest) rfq_data =
     (if find_a_href container = None then scan_containers urljoin now rest rfq_data
      else
        (case extract_rfq_data urljoin now container of
           Inl e \<Rightarrow> Inl e
         | Inr data \<Rightarrow>
             (case map_of data ''Title'' of
                None \<Rightarrow> Inl OtherException
              | Some title \<Rightarrow>
                  if title \<noteq> [] then scan_containers urljoin now rest (rfq_data @ [data])
                  else scan_containers urljoin now rest rfq_data)))"

text \<open>The part of the method that works on the parsed page.\<close>

definition rfq_containers :: "node \<Rightarrow> node list" where
  "rfq_containers soup =
     (let found = find_all_class [''div'', ''li'']
                    [''rfq'', ''item'', ''card'', ''inquiry'', ''request''] soup
      in if found = [] then find_all_class [''div'', ''li''] [''list'', ''item'', ''card''] soup
         else found)"

definition scan_page :: "urljoin \<Rightarrow> datetime \<Rightarrow> node \<Rightarrow> exn + rfq list" where
  "scan_page urljoin now soup = scan_containers urljoin now (rfq_containers soup) []"

text \<open>
  The whole method. \<open>BeautifulSoup\<close> is the parameter \<open>parse\<close>, which returns the tree of
  a response's content or raises; the clock is read off the state of the world. The
  method returns the records with the events of the fetch and the state after it. When
  \<open>get_page\<close> returns \<open>None\<close>, \<open>response.content\<close> raises an \<open>AttributeError\<close>.
\<close>

type_synonym 'c parser = "'c \<Rightarrow> exn + node"

definition scrape_rfq_page ::
  "('w, 'c) session \<Rightarrow> 'c parser \<Rightarrow> urljoin \<Rightarrow> ('w \<Rightarrow> datetime) \<Rightarrow> string \<Rightarrow> 'w \<Rightarrow>
   rfq list \<times> event list \<times> 'w"
where
  "scrape_rfq_page session parse urljoin clock url w =
     (case get_page session url 3 w of
        (Inl e, evs, w') \<Rightarrow> ([], evs, w')
      | (Inr None, evs, w') \<Rightarrow> ([], evs, w')
      | (Inr (Some content), evs, w') \<Rightarrow>
          (case parse content of
             Inl e \<Rightarrow> ([], evs, w')
           | Inr soup \<Rightarrow>
               (case scan_page urljoin (clock w') soup of
                  Inl e \<Rightarrow> ([], evs, w')
                | Inr rfq_data \<Rightarrow> (rfq_data, evs, w'))))"

section \<open>get_all_page_urls\<close>








section \<open>scrape_all_pages\<close>




section \<open>save_to_csv\<close>

text \<open>
  \<^verbatim>\<open>
  def save_to_csv(self, data, filename='alibaba_rfq_data.csv'):
      if not data:
          logger.warning("No data to save")
          return
      df = pd.DataFrame(data)
      required_columns = ['RFQ ID', 'Title', ..., 'Inquiry Date', 'Scraping Date']
      for col in required_columns:
          if col not in df.columns:
              df[col] = ''
      df = df[required_columns]
      df.to_csv(filename, index=False, encoding='utf-8')
      return df
  \<close>
  A data frame is its list of column names and its rows; a cell is \<open>None\<close> where the
  frame holds no value (\<open>NaN\<close>). \<open>pd.DataFrame(data)\<close> of a list of dictionaries has the
  keys as columns, in the order in which they first occur, and a row for each dictionary,
  without a value where the dictionary lacks the key.
\<close>

record dataframe =
  columns :: "string list"
  cells :: "string option list list"

definition DataFrame :: "rfq list \<Rightarrow> dataframe" where
  "DataFrame data =
     (let cols = rev (remdups (rev (concat (map (map fst) data))))
      in \<lparr>columns = cols, cells = map (\<lambda>d. map (map_of d) cols) data\<rparr>)"

text \<open>\<open>df[col] = ''\<close> for a new column, and \<open>df[cols]\<close>, the columns \<open>cols\<close> in that order.\<close>

definition add_column :: "string \<Rightarrow> string \<Rightarrow> dataframe \<Rightarrow> dataframe" where
  "add_column col v df =
     \<lparr>columns = columns df @ [col], cells = map (\<lambda>row. row @ [Some v]) (cells df)\<rparr>"

definition index_of :: "string \<Rightarrow> string list \<Rightarrow> nat option" where
  "index_of col cols = (if col \<in> set cols then Some (length (takeWhile (\<lambda>c. c \<noteq> col) cols)) else None)"

definition select_columns :: "string list \<Rightarrow> dataframe \<Rightarrow> exn + dataframe" where
  "select_columns cols df =
     (if set cols \<subseteq> set (columns df)
      then Inr \<lparr>columns = cols,
                cells = map (\<lambda>row. map (\<lambda>c. row ! the (index_of c (columns df))) cols) (cells df)\<rparr>
      else Inl OtherException)"

definition required_columns :: "string list" where
  "required_columns =
     [''RFQ ID'', ''Title'', ''Buyer Name'', ''Buyer Image'', ''Inquiry Time'',
      ''Quotes Left'', ''Country'', ''Quantity Required'', ''Email Confirmed'',
      ''Experienced Buyer'', ''Complete Order via RFQ'', ''Typical Replies'',
      ''Interactive User'', ''Inquiry URL'', ''Inquiry Date'', ''Scraping Date'']"

fun ensure_columns :: "string list \<Rightarrow> dataframe \<Rightarrow> dataframe" where
  "ensure_columns [] df = df"
| "ensure_columns (col # rest) df =
     (if col \<notin> set (columns df) then ensure_columns rest (add_column col [] df)
      else ensure_columns rest df)"

text \<open>
  \<open>df.to_csv(filename, index=False)\<close> writes the header and then a line for each row,
  with an empty field for a missing value. The file is modelled as its lines, each the
  list of its fields; the quoting of a field is left out.
\<close>

definition to_csv :: "dataframe \<Rightarrow> string list list" where
  "to_csv df = columns df # map (map (\<lambda>c. case c of None \<Rightarrow> [] | Some v \<Rightarrow> v)) (cells df)"

text \<open>
  The method returns \<open>None\<close> and writes nothing when \<open>data\<close> is empty; otherwise the result
  is the file written and the frame returned.
\<close>

definition save_to_csv :: "rfq list \<Rightarrow> exn + (string list list \<times> dataframe) option" where
  "save_to_csv data =
     (if data = [] then Inr None
      else
        (case select_columns required_columns (ensure_columns required_columns (DataFrame data)) of
           Inl e \<Rightarrow> Inl e
         | Inr df \<Rightarrow> Inr (Some (to_csv df, df))))"

section \<open>Notions for stating the properties\<close>

text \<open>The five columns that hold a flag.\<close>

definition flag_columns :: "string list" where
  "flag_columns =
     [''Email Confirmed'', ''Experienced Buyer'', ''Complete Order via RFQ'',
      ''Typical Replies'', ''Interactive User'']"

text \<open>
  A record of the element \<open>el\<close> has the default of a column wherever the search for that
  column finds nothing in \<open>el\<close>: the empty string, and \<open>No\<close> for a flag.
\<close>

definition defaults_where_absent :: "node \<Rightarrow> rfq \<Rightarrow> bool" where
  "defaults_where_absent el data =
     ((find_a_href el = None \<longrightarrow>
         map_of data ''Inquiry URL'' = Some [] \<and> map_of data ''RFQ ID'' = Some []) \<and>
      (find_class [''span'', ''div''] [''buyer'', ''user'', ''name''] el = None \<longrightarrow>
         map_of data ''Buyer Name'' = Some []) \<and>
      (find_named [''img''] el = None \<longrightarrow> map_of data ''Buyer Image'' = Some []) \<and>
      (find_string [''span'', ''div'']
         [''ago'', ''before'', ''hour'', ''day'', ''week'', ''month''] el = None \<longrightarrow>
         map_of data ''Inquiry Time'' = Some [] \<and> map_of data ''Inquiry Date'' = Some []) \<and>
      (find_string [''span'', ''div''] [''quote'', ''left''] el = None \<longrightarrow>
         map_of data ''Quotes Left'' = Some []) \<and>
      (find_class [''span'', ''div''] [''country'', ''flag''] el = None \<longrightarrow>
         map_of data ''Country'' = Some []) \<and>
      (find_string [''span'', ''div'']
         [''piece'', ''pcs'', ''unit'', ''box'', ''kg'', ''ton''] el = None \<longrightarrow>
         map_of data ''Quantity Required'' = Some []) \<and>
      (find_class [''span'', ''div'', ''i''] [''email'', ''confirm'', ''verified''] el = None \<longrightarrow>
         map_of data ''Email Confirmed'' = Some ''No'') \<and>
      (find_class [''span'', ''div'', ''i''] [''experienced'', ''veteran'', ''star''] el = None \<longrightarrow>
         map_of data ''Experienced Buyer'' = Some ''No'') \<and>
      (find_class [''span'', ''div'', ''i''] [''complete'', ''order'', ''rfq''] el = None \<longrightarrow>
         map_of data ''Complete Order via RFQ'' = Some ''No'') \<and>
      (find_class [''span'', ''div'', ''i''] [''typical'', ''reply'', ''response''] el = None \<longrightarrow>
         map_of data ''Typical Replies'' = Some ''No'') \<and>
      (find_class [''span'', ''div'', ''i''] [''interactive'', ''active'', ''online''] el = None \<longrightarrow>
         map_of data ''Interactive User'' = Some ''No''))"










text \<open>The field written for a cell: empty for a missing value.\<close>

definition shown :: "string option \<Rightarrow> string" where
  "shown c = (case c of None \<Rightarrow> [] | Some v \<Rightarrow> v)"

text \<open>
  A frame agrees with the records \<open>data\<close>: its columns are distinct and comprise every key
  of the records, and it has a row for each record, which shows in each column the
  record's value for that column, or nothing.
\<close>

definition agrees :: "rfq list \<Rightarrow> dataframe \<Rightarrow> bool" where
  "agrees data df =
     (distinct (columns df) \<and>
      (\<forall>d\<in>set data. set (map fst d) \<subseteq> set (columns df)) \<and>
      map (map shown) (cells df) =
        map (\<lambda>d. map (\<lambda>c. shown (map_of d c)) (columns df)) data)"

section \<open>Sample inputs\<close>

text \<open>
  The inputs of the examples. \<open>sample_urljoin\<close> stands for \<open>urljoin\<close> there: for the base
  \<open>https://sourcing.alibaba.com\<close> and a reference that is a plain absolute path or a
  query, as in the examples, the joined URL is the base followed by the reference; a
  reference that starts with \<open>//[\<close> and has no closing bracket makes \<open>urljoin\<close> raise a
  \<open>ValueError\<close> (invalid IPv6 URL).
\<close>

definition sample_urljoin :: urljoin where
  "sample_urljoin base href =
     (if prefix ''//['' href \<and> CHR '']'' \<notin> set href then Inl OtherException
      else Inr (base @ href))"

text \<open>
  A site is a table of pages, already parsed; a request of a URL that the table lacks
  fails. The state of the world counts the requests.
\<close>

definition site :: "(string \<times> node) list \<Rightarrow> (nat, node) session" where
  "site pages url w =
     (case map_of pages url of
        Some page \<Rightarrow> (Response page, Suc w)
      | None \<Rightarrow> (Failed RequestException, Suc w))"

definition parsed :: "node parser" where
  "parsed content = Inr content"

definition document :: "node list \<Rightarrow> node" where
  "document children = Tag ''[document]'' [] children"

text \<open>
  An inquiry with an anchor, a buyer, a time and a country; one whose time lies ten
  million days back; one whose anchor has a reference that \<open>urljoin\<close> rejects; and an
  element with a title and no anchor.
\<close>

definition shirts_card :: node where
  "shirts_card =
     Tag ''div'' [(''class'', ''rfq-card'')]
       [Tag ''a'' [(''href'', ''/rfq/detail?ID12345&x=1'')] [NavigableString '' Cotton shirts ''],
        Tag ''span'' [(''class'', ''buyer-name'')] [NavigableString ''Ali''],
        Tag ''span'' [] [NavigableString ''Yesterday''],
        Tag ''span'' [(''class'', ''country'')] [NavigableString ''UAE'']]"



definition bare_item :: node where
  "bare_item =
     Tag ''div'' [(''class'', ''item'')]
       [Tag ''h3'' [(''class'', ''title'')] [NavigableString ''Wanted: bolts'']]"

definition shirts_record :: "datetime \<Rightarrow> rfq" where
  "shirts_record now =
     [(''RFQ ID'', ''12345''), (''Title'', ''Cotton shirts''), (''Buyer Name'', ''Ali''),
      (''Buyer Image'', ''''), (''Inquiry Time'', ''Yesterday''), (''Quotes Left'', ''''),
      (''Country'', ''UAE''), (''Quantity Required'', ''''), (''Email Confirmed'', ''No''),
      (''Experienced Buyer'', ''No''), (''Complete Order via RFQ'', ''No''),
      (''Typical Replies'', ''No''), (''Interactive User'', ''No''),
      (''Inquiry URL'', ''https://sourcing.alibaba.com/rfq/detail?ID12345&x=1''),
      (''Inquiry Date'', ''yesterday''), (''Scraping Date'', strftime_dmY now)]"

definition sample_now :: datetime where
  "sample_now = datetime_of 2024 1 20 10 0 0"

definition sample_clock :: "nat \<Rightarrow> datetime" where
  "sample_clock w = sample_now"

definition bare_record :: "datetime \<Rightarrow> rfq" where
  "bare_record now =
     [(''RFQ ID'', ''''), (''Title'', ''Wanted: bolts''), (''Buyer Name'', ''''),
      (''Buyer Image'', ''''), (''Inquiry Time'', ''''), (''Quotes Left'', ''''),
      (''Country'', ''''), (''Quantity Required'', ''''), (''Email Confirmed'', ''No''),
      (''Experienced Buyer'', ''No''), (''Complete Order via RFQ'', ''No''),
      (''Typical Replies'', ''No''), (''Interactive User'', ''No''), (''Inquiry URL'', ''''),
      (''Inquiry Date'', ''''), (''Scraping Date'', strftime_dmY now)]"







section \<open>Properties of get_page\<close>

text \<open>
  C10: called with a retry count of 0, \<open>get_page\<close> makes no request, does not sleep and
  returns \<open>None\<close> without raising.
\<close>

theorem get_page_zero_retries:
  "get_page session url 0 w = (Inr None, [], w)"
  by (simp add: get_page_def range_py_def)

lemma world_after_Suc:
  "world_after session url (Suc k) w = world_after session url k (snd (session url w))"
proof -
  have "\<And>f (x::'w). (f ^^ Suc k) x = (f ^^ k) (f x)"
    by (simp add: funpow_swap1)
  from this[of "\<lambda>v. snd (session url v)" w] show ?thesis
    unfolding world_after_def .
qed

lemma failed_attempts_step:
  "i < k \<Longrightarrow> failed_attempts url i k = Request url # Sleep (2 ^ i) # failed_attempts url (Suc i) k"
  by (simp add: failed_attempts_def upt_conv_Cons)

lemma get_page_loop_fail_then_ok:
  assumes "\<forall>j<m. attempt_fails session url w j"
    and "fst (session url (world_after session url m w)) = Response r"
    and "int (i + m) < retries" and "i + m < n"
  shows "get_page_loop session url retries [i ..< n] w =
           (Inr (Some r), failed_attempts url i (i + m) @ [Request url],
            world_after session url (Suc m) w)"
  using assms
proof (induction m arbitrary: i w)
  case 0
  then have "[i ..< n] = i # [Suc i ..< n]" by (simp add: upt_conv_Cons)
  with 0 show ?case
    by (cases "session url w") (simp add: world_after_def failed_attempts_def)
next
  case (Suc m)
  from Suc.prems have lst: "[i ..< n] = i # [Suc i ..< n]" by (simp add: upt_conv_Cons)
  from Suc.prems(1) have f0: "fst (session url w) = Failed RequestException"
    by (auto simp: attempt_fails_def world_after_def)
  then obtain w' where sw: "session url w = (Failed RequestException, w')"
    by (cases "session url w") simp
  have fails': "\<forall>j<m. attempt_fails session url w' j"
  proof (intro allI impI)
    fix j assume "j < m"
    then have "attempt_fails session url w (Suc j)" using Suc.prems(1) by simp
    then show "attempt_fails session url w' j"
      by (simp add: attempt_fails_def world_after_Suc sw)
  qed
  have ok': "fst (session url (world_after session url m w')) = Response r"
    using Suc.prems(2) by (simp add: world_after_Suc sw)
  have IH: "get_page_loop session url retries [Suc i ..< n] w' =
           (Inr (Some r), failed_attempts url (Suc i) (Suc i + m) @ [Request url],
            world_after session url (Suc m) w')"
    using Suc.IH[OF fails' ok'] Suc.prems(3,4) by simp
  have lt: "int i < retries - 1" using Suc.prems(3) by simp
  show ?case
    using IH lt by (simp add: lst sw failed_attempts_step world_after_Suc[of _ _ "Suc m" w])
qed

lemma get_page_loop_all_fail:
  assumes "\<forall>j<Suc m. attempt_fails session url w j"
    and "int n = retries" and "n = i + Suc m"
  shows "get_page_loop session url retries [i ..< n] w =
           (Inl RequestException, failed_attempts url i (i + m) @ [Request url],
            world_after session url (Suc m) w)"
  using assms
proof (induction m arbitrary: i w)
  case 0
  then have f0: "fst (session url w) = Failed RequestException"
    by (auto simp: attempt_fails_def world_after_def)
  then obtain w' where sw: "session url w = (Failed RequestException, w')"
    by (cases "session url w") simp
  have lst: "[i ..< n] = [i]" using 0 by (simp add: upt_conv_Cons)
  from 0 show ?case
    by (simp add: lst sw world_after_def failed_attempts_def)
next
  case (Suc m)
  have lst: "[i ..< n] = i # [Suc i ..< n]" using Suc.prems by (simp add: upt_conv_Cons)
  from Suc.prems(1) have f0: "fst (session url w) = Failed RequestException"
    by (auto simp: attempt_fails_def world_after_def)
  then obtain w' where sw: "session url w = (Failed RequestException, w')"
    by (cases "session url w") simp
  have fails': "\<forall>j<Suc m. attempt_fails session url w' j"
  proof (intro allI impI)
    fix j assume "j < Suc m"
    then have "attempt_fails session url w (Suc j)" using Suc.prems(1) by simp
    then show "attempt_fails session url w' j"
      by (simp add: attempt_fails_def world_after_Suc sw)
  qed
  have n': "n = Suc i + Suc m" using Suc.prems by simp
  have IH: "get_page_loop session url retries [Suc i ..< n] w' =
           (Inl RequestException, failed_attempts url (Suc i) (Suc i + m) @ [Request url],
            world_after session url (Suc m) w')"
    by (rule Suc.IH[OF fails' Suc.prems(2) n'])
  have lt: "int i < retries - 1" using Suc.prems(2,3) by simp
  have step: "failed_attempts url i (i + Suc m) =
      Request url # Sleep (2 ^ i) # failed_attempts url (Suc i) (Suc i + m)"
    using failed_attempts_step[of i "i + Suc m" url] by simp
  have wa: "world_after session url (Suc (Suc m)) w = world_after session url (Suc m) w'"
    using world_after_Suc[of session url "Suc m" w] by (simp add: sw)
  show ?case
    unfolding lst step wa using IH lt by (simp add: sw)
qed

lemma count_failed_attempts:
  "count_list (failed_attempts url i k) (Request url) = k - i"
  by (induction k) (auto simp: failed_attempts_def Suc_diff_le)

text \<open>
  C2: with a retry count of at least 1, when every attempt fails with a transport error
  \<open>get_page\<close> makes exactly \<open>retries\<close> requests, sleeps \<open>2 ^ attempt\<close> after each failed
  attempt but the last, and then raises the transport error; when the attempts before
  attempt \<open>k < retries\<close> fail and attempt \<open>k\<close> succeeds (in particular for
  \<open>k = retries - 1\<close>), it returns that response and raises nothing.
\<close>

theorem get_page_retries:
  assumes "0 < retries"
  shows "((\<forall>k < nat retries. attempt_fails session url w k) \<longrightarrow>
            (\<exists>evs. get_page session url retries w =
                   (Inl RequestException, evs, world_after session url (nat retries) w) \<and>
                 evs = failed_attempts url 0 (nat retries - 1) @ [Request url] \<and>
                 count_list evs (Request url) = nat retries)) \<and>
         (\<forall>k r. k < nat retries \<and> (\<forall>j < k. attempt_fails session url w j) \<and>
                fst (session url (world_after session url k w)) = Response r \<longrightarrow>
            get_page session url retries w =
              (Inr (Some r), failed_attempts url 0 k @ [Request url],
               world_after session url (Suc k) w))"
proof (intro conjI impI allI)
  assume a: "\<forall>k < nat retries. attempt_fails session url w k"
  obtain m where m: "nat retries = Suc m" using assms by (cases "nat retries") auto
  have "get_page_loop session url retries [0 ..< nat retries] w =
           (Inl RequestException, failed_attempts url 0 (0 + m) @ [Request url],
            world_after session url (Suc m) w)"
    using a m assms by (intro get_page_loop_all_fail) auto
  then show "\<exists>evs. get_page session url retries w =
                   (Inl RequestException, evs, world_after session url (nat retries) w) \<and>
                 evs = failed_attempts url 0 (nat retries - 1) @ [Request url] \<and>
                 count_list evs (Request url) = nat retries"
    by (simp add: get_page_def range_py_def m count_failed_attempts del: upt_Suc)
next
  fix k r
  assume a: "k < nat retries \<and> (\<forall>j < k. attempt_fails session url w j) \<and>
                fst (session url (world_after session url k w)) = Response r"
  then have "get_page_loop session url retries [0 ..< nat retries] w =
           (Inr (Some r), failed_attempts url 0 (0 + k) @ [Request url],
            world_after session url (Suc k) w)"
    by (intro get_page_loop_fail_then_ok) auto
  then show "get_page session url retries w =
              (Inr (Some r), failed_attempts url 0 k @ [Request url],
               world_after session url (Suc k) w)"
    by (simp add: get_page_def range_py_def)
qed


lemma world_after_always_down: "world_after always_down url k w = w + k"
  by (induction k) (simp_all add: world_after_def always_down_def)

lemma world_after_up_from: "world_after (up_from n) url k w = w + k"
  by (induction k) (simp_all add: world_after_def up_from_def)

theorem get_page_retries_witness:
  "get_page always_down ''u'' 3 0 =
     (Inl RequestException,
      [Request ''u'', Sleep 1, Request ''u'', Sleep 2, Request ''u''], 3) \<and>
   get_page (up_from 2) ''u'' 3 0 =
     (Inr (Some ''page of u''),
      [Request ''u'', Sleep 1, Request ''u'', Sleep 2, Request ''u''], 3)"
proof -
  have fa: "failed_attempts ''u'' 0 2 = [Request ''u'', Sleep 1, Request ''u'', Sleep 2]"
    by (simp add: failed_attempts_def upt_conv_Cons)
  have pos: "(0::int) < 3" by simp
  have h1: "\<forall>k < nat 3. attempt_fails always_down ''u'' 0 k"
    by (simp add: attempt_fails_def always_down_def)
  have h2: "(2::nat) < nat 3 \<and> (\<forall>j < 2. attempt_fails (up_from 2) ''u'' 0 j) \<and>
      fst (up_from 2 ''u'' (world_after (up_from 2) ''u'' 2 0)) = Response ''page of u''"
    by (simp add: attempt_fails_def world_after_up_from up_from_def)
  have t1: "get_page always_down ''u'' 3 0 =
     (Inl RequestException, failed_attempts ''u'' 0 (nat 3 - 1) @ [Request ''u''],
      world_after always_down ''u'' (nat 3) 0)"
    using get_page_retries[OF pos, of always_down "''u''" 0] h1 by auto
  have t2: "get_page (up_from 2) ''u'' 3 0 =
     (Inr (Some ''page of u''), failed_attempts ''u'' 0 2 @ [Request ''u''],
      world_after (up_from 2) ''u'' (Suc 2) 0)"
    using get_page_retries[OF pos, of "up_from 2" "''u''" 0, THEN conjunct2, rule_format, OF h2] .
  have n: "nat 3 - 1 = 2" by simp
  show ?thesis
    unfolding t1 t2 n fa by (simp add: world_after_always_down world_after_up_from)
qed

section \<open>Facts about strings\<close>

lemma lower_char_upper:
  "c \<in> set ''ABCDEFGHIJKLMNOPQRSTUVWXYZ'' \<Longrightarrow>
     \<not> isdigit (lower_char c) \<and> \<not> isspace (lower_char c) \<and> \<not> isdigit c \<and> \<not> isspace c"
  by (auto simp: lower_char_def isdigit_def isspace_def)

lemma lower_char_other: "c \<notin> set ''ABCDEFGHIJKLMNOPQRSTUVWXYZ'' \<Longrightarrow> lower_char c = c"
  by (simp add: lower_char_def)

lemma isdigit_lower_char [simp]: "isdigit (lower_char c) = isdigit c"
  using lower_char_upper[of c] lower_char_other[of c] by metis

lemma isspace_lower_char [simp]: "isspace (lower_char c) = isspace c"
  using lower_char_upper[of c] lower_char_other[of c] by metis








subsection \<open>strip\<close>






subsection \<open>Numbers\<close>





section \<open>Properties of parse_time_ago\<close>

















subsection \<open>Evaluating parse_time_ago on a given text\<close>









section \<open>Properties of extract_rfq_data\<close>

subsection \<open>What a step does to the dictionary\<close>

lemma map_of_update: "map_of (AList.update k v d) k' = (if k' = k then Some v else map_of d k')"
  by (simp add: update_conv')

lemma keys_update: "k \<in> set (map fst d) \<Longrightarrow> map fst (AList.update k v d) = map fst d"
  by (simp add: update_keys)

lemma map_of_link_step:
  "k \<noteq> ''Inquiry URL'' \<Longrightarrow> k \<noteq> ''RFQ ID'' \<Longrightarrow>
   map_of (fst (link_step urljoin el d)) k = map_of d k"
  by (simp add: link_step_def map_of_update Let_def split: option.split sum.split)

lemma map_of_title_step:
  "k \<noteq> ''Title'' \<Longrightarrow> map_of (fst (title_step el d)) k = map_of d k"
  by (simp add: title_step_def map_of_update Let_def split: option.split)

lemma map_of_class_text_step:
  "k \<noteq> key \<Longrightarrow> map_of (fst (class_text_step key ws el d)) k = map_of d k"
  by (simp add: class_text_step_def map_of_update split: option.split)

lemma map_of_image_step:
  "k \<noteq> ''Buyer Image'' \<Longrightarrow> map_of (fst (image_step el d)) k = map_of d k"
  by (simp add: image_step_def map_of_update split: option.split)

lemma map_of_time_step:
  "k \<noteq> ''Inquiry Time'' \<Longrightarrow> k \<noteq> ''Inquiry Date'' \<Longrightarrow>
   map_of (fst (time_step now el d)) k = map_of d k"
  by (simp add: time_step_def map_of_update Let_def split: option.split sum.split)

lemma map_of_quotes_step:
  "k \<noteq> ''Quotes Left'' \<Longrightarrow> map_of (fst (quotes_step el d)) k = map_of d k"
  by (simp add: quotes_step_def map_of_update split: option.split)

lemma map_of_quantity_step:
  "k \<noteq> ''Quantity Required'' \<Longrightarrow> map_of (fst (quantity_step el d)) k = map_of d k"
  by (simp add: quantity_step_def map_of_update split: option.split)

lemma map_of_flag_step:
  "k \<noteq> key \<Longrightarrow> map_of (fst (flag_step key ws el d)) k = map_of d k"
  by (simp add: flag_step_def map_of_update split: option.split)

lemmas map_of_other_step =
  map_of_link_step map_of_title_step map_of_class_text_step map_of_image_step
  map_of_time_step map_of_quotes_step map_of_quantity_step map_of_flag_step

text \<open>The keys stay as they are: every step assigns to keys that are there.\<close>

lemma keys_link_step:
  "map fst d = required_columns \<Longrightarrow> map fst (fst (link_step urljoin el d)) = required_columns"
  by (simp add: link_step_def keys_update required_columns_def Let_def split: option.split sum.split)

lemma keys_title_step:
  "map fst d = required_columns \<Longrightarrow> map fst (fst (title_step el d)) = required_columns"
  by (simp add: title_step_def keys_update required_columns_def Let_def split: option.split)

lemma keys_class_text_step:
  "map fst d = required_columns \<Longrightarrow> key \<in> set required_columns \<Longrightarrow>
   map fst (fst (class_text_step key ws el d)) = required_columns"
  by (simp add: class_text_step_def keys_update split: option.split)

lemma keys_image_step:
  "map fst d = required_columns \<Longrightarrow> map fst (fst (image_step el d)) = required_columns"
  by (simp add: image_step_def keys_update required_columns_def split: option.split)

lemma keys_time_step:
  "map fst d = required_columns \<Longrightarrow> map fst (fst (time_step now el d)) = required_columns"
  by (simp add: time_step_def keys_update required_columns_def Let_def split: option.split sum.split)

lemma keys_quotes_step:
  "map fst d = required_columns \<Longrightarrow> map fst (fst (quotes_step el d)) = required_columns"
  by (simp add: quotes_step_def keys_update required_columns_def split: option.split)

lemma keys_quantity_step:
  "map fst d = required_columns \<Longrightarrow> map fst (fst (quantity_step el d)) = required_columns"
  by (simp add: quantity_step_def keys_update required_columns_def split: option.split)

lemma keys_flag_step:
  "map fst d = required_columns \<Longrightarrow> key \<in> set required_columns \<Longrightarrow>
   map fst (fst (flag_step key ws el d)) = required_columns"
  by (simp add: flag_step_def keys_update split: option.split)

text \<open>A property that every step keeps holds of the dictionary that the sequence leaves.\<close>

lemma run_steps_invariant:
  assumes "\<And>s d. s \<in> set ss \<Longrightarrow> Q d \<Longrightarrow> Q (fst (s d))" and "Q d"
  shows "Q (fst (run_steps ss d))"
  using assms
proof (induction ss arbitrary: d)
  case Nil
  then show ?case by simp
next
  case (Cons s ss)
  have q: "Q (fst (s d))" using Cons.prems by simp
  obtain d' e where sd: "s d = (d', e)" by (cases "s d")
  show ?case
  proof (cases e)
    case None
    then show ?thesis using Cons.IH[of d'] Cons.prems(1) q sd by simp
  next
    case (Some x)
    then show ?thesis using q sd by simp
  qed
qed

lemma extract_rfq_data_run:
  "extract_rfq_data urljoin now el = Inr (fst (run_steps (extract_steps urljoin now el) (initial_data now)))"
  by (simp add: extract_rfq_data_def split: prod.split option.split)


lemma extract_steps_cases:
  assumes "s \<in> set (extract_steps urljoin now el)"
  obtains "s = link_step urljoin el"
    | "s = title_step el"
    | "s = class_text_step ''Buyer Name'' [''buyer'', ''user'', ''name''] el"
    | "s = image_step el"
    | "s = time_step now el"
    | "s = quotes_step el"
    | "s = class_text_step ''Country'' [''country'', ''flag''] el"
    | "s = quantity_step el"
    | "s = flag_step ''Email Confirmed'' [''email'', ''confirm'', ''verified''] el"
    | "s = flag_step ''Experienced Buyer'' [''experienced'', ''veteran'', ''star''] el"
    | "s = flag_step ''Complete Order via RFQ'' [''complete'', ''order'', ''rfq''] el"
    | "s = flag_step ''Typical Replies'' [''typical'', ''reply'', ''response''] el"
    | "s = flag_step ''Interactive User'' [''interactive'', ''active'', ''online''] el"
  using assms unfolding extract_steps_def
  by (simp only: list.set insert_iff empty_iff) (elim disjE; simp)

lemma keys_extract_step:
  assumes "s \<in> set (extract_steps urljoin now el)" and "map fst d = required_columns"
  shows "map fst (fst (s d)) = required_columns"
  using assms(1)
proof (cases rule: extract_steps_cases)
  case 3
  then show ?thesis using assms(2) by (simp add: keys_class_text_step required_columns_def)
next
  case 7
  then show ?thesis using assms(2) by (simp add: keys_class_text_step required_columns_def)
next
  case 9
  then show ?thesis using assms(2) by (simp add: keys_flag_step required_columns_def)
next
  case 10
  then show ?thesis using assms(2) by (simp add: keys_flag_step required_columns_def)
next
  case 11
  then show ?thesis using assms(2) by (simp add: keys_flag_step required_columns_def)
next
  case 12
  then show ?thesis using assms(2) by (simp add: keys_flag_step required_columns_def)
next
  case 13
  then show ?thesis using assms(2) by (simp add: keys_flag_step required_columns_def)
qed (simp_all add: assms(2) keys_link_step keys_title_step keys_image_step keys_time_step
       keys_quotes_step keys_quantity_step)

lemma keys_initial_data: "map fst (initial_data now) = required_columns"
  by (simp add: initial_data_def required_columns_def)

lemma keys_extract:
  "map fst (fst (run_steps (extract_steps urljoin now el) (initial_data now))) = required_columns"
  by (rule run_steps_invariant[where Q = "\<lambda>d. map fst d = required_columns"])
     (simp_all add: keys_extract_step keys_initial_data)


lemma untouched:
  assumes "\<And>s d. s \<in> set ss \<Longrightarrow> map_of (fst (s d)) k = map_of d k"
  shows "map_of (fst (run_steps ss d)) k = map_of d k"
  by (rule run_steps_invariant[where Q = "\<lambda>d'. map_of d' k = map_of d k"])
     (simp_all add: assms)

lemma flag_not_text:
  assumes "k \<in> set flag_columns"
  shows "k \<noteq> ''Inquiry URL''" "k \<noteq> ''RFQ ID''" "k \<noteq> ''Title''" "k \<noteq> ''Buyer Name''"
    "k \<noteq> ''Buyer Image''" "k \<noteq> ''Inquiry Time''" "k \<noteq> ''Inquiry Date''"
    "k \<noteq> ''Quotes Left''" "k \<noteq> ''Country''" "k \<noteq> ''Quantity Required''"
  using assms unfolding flag_columns_def
  by (simp_all only: list.set insert_iff empty_iff) (elim disjE; simp)+

lemma flag_step_value:
  "map_of d k = Some ''Yes'' \<or> map_of d k = Some ''No'' \<Longrightarrow>
   map_of (fst (flag_step key ws el d)) k = Some ''Yes'' \<or>
   map_of (fst (flag_step key ws el d)) k = Some ''No''"
  by (simp add: flag_step_def map_of_update split: option.split)

lemma flag_initial:
  "k \<in> set flag_columns \<Longrightarrow> map_of (initial_data now) k = Some ''No''"
  unfolding flag_columns_def initial_data_def
  by (simp only: list.set insert_iff empty_iff) (elim disjE; simp)

lemma flags_extract:
  assumes "k \<in> set flag_columns"
  shows "map_of (fst (run_steps (extract_steps urljoin now el) (initial_data now))) k = Some ''Yes'' \<or>
         map_of (fst (run_steps (extract_steps urljoin now el) (initial_data now))) k = Some ''No''"
proof (rule run_steps_invariant[where Q = "\<lambda>d. map_of d k = Some ''Yes'' \<or> map_of d k = Some ''No''"])
  show "map_of (initial_data now) k = Some ''Yes'' \<or> map_of (initial_data now) k = Some ''No''"
    using flag_initial[OF assms] by simp
next
  fix s d
  assume s: "s \<in> set (extract_steps urljoin now el)"
    and d: "map_of d k = Some ''Yes'' \<or> map_of d k = Some ''No''"
  from s show "map_of (fst (s d)) k = Some ''Yes'' \<or> map_of (fst (s d)) k = Some ''No''"
    by (cases rule: extract_steps_cases)
       (simp_all add: d flag_step_value map_of_other_step flag_not_text[OF assms])
qed


lemma absent_link_1:
  assumes "find_a_href el = None"
  shows "map_of (fst (run_steps (extract_steps urljoin now el) (initial_data now))) ''Inquiry URL'' = Some []"
proof -
  have "map_of (fst (run_steps (extract_steps urljoin now el) (initial_data now))) ''Inquiry URL'' = map_of (initial_data now) ''Inquiry URL''"
  proof (rule untouched)
    fix s d
    assume "s \<in> set (extract_steps urljoin now el)"
    then show "map_of (fst (s d)) ''Inquiry URL'' = map_of d ''Inquiry URL''"
      by (cases rule: extract_steps_cases)
         (simp_all add: map_of_other_step link_step_def map_of_update assms split: option.split)
  qed
  then show ?thesis by (simp add: initial_data_def)
qed

lemma absent_link_2:
  assumes "find_a_href el = None"
  shows "map_of (fst (run_steps (extract_steps urljoin now el) (initial_data now))) ''RFQ ID'' = Some []"
proof -
  have "map_of (fst (run_steps (extract_steps urljoin now el) (initial_data now))) ''RFQ ID'' = map_of (initial_data now) ''RFQ ID''"
  proof (rule untouched)
    fix s d
    assume "s \<in> set (extract_steps urljoin now el)"
    then show "map_of (fst (s d)) ''RFQ ID'' = map_of d ''RFQ ID''"
      by (cases rule: extract_steps_cases)
         (simp_all add: map_of_other_step link_step_def map_of_update assms split: option.split)
  qed
  then show ?thesis by (simp add: initial_data_def)
qed

lemma absent_buyer:
  assumes "find_class [''span'', ''div''] [''buyer'', ''user'', ''name''] el = None"
  shows "map_of (fst (run_steps (extract_steps urljoin now el) (initial_data now))) ''Buyer Name'' = Some []"
proof -
  have "map_of (fst (run_steps (extract_steps urljoin now el) (initial_data now))) ''Buyer Name'' = map_of (initial_data now) ''Buyer Name''"
  proof (rule untouched)
    fix s d
    assume "s \<in> set (extract_steps urljoin now el)"
    then show "map_of (fst (s d)) ''Buyer Name'' = map_of d ''Buyer Name''"
      by (cases rule: extract_steps_cases)
         (simp_all add: map_of_other_step class_text_step_def map_of_update assms split: option.split)
  qed
  then show ?thesis by (simp add: initial_data_def)
qed

lemma absent_image:
  assumes "find_named [''img''] el = None"
  shows "map_of (fst (run_steps (extract_steps urljoin now el) (initial_data now))) ''Buyer Image'' = Some []"
proof -
  have "map_of (fst (run_steps (extract_steps urljoin now el) (initial_data now))) ''Buyer Image'' = map_of (initial_data now) ''Buyer Image''"
  proof (rule untouched)
    fix s d
    assume "s \<in> set (extract_steps urljoin now el)"
    then show "map_of (fst (s d)) ''Buyer Image'' = map_of d ''Buyer Image''"
      by (cases rule: extract_steps_cases)
         (simp_all add: map_of_other_step image_step_def map_of_update assms split: option.split)
  qed
  then show ?thesis by (simp add: initial_data_def)
qed

lemma absent_time_1:
  assumes "find_string [''span'', ''div''] [''ago'', ''before'', ''hour'', ''day'', ''week'', ''month''] el = None"
  shows "map_of (fst (run_steps (extract_steps urljoin now el) (initial_data now))) ''Inquiry Time'' = Some []"
proof -
  have "map_of (fst (run_steps (extract_steps urljoin now el) (initial_data now))) ''Inquiry Time'' = map_of (initial_data now) ''Inquiry Time''"
  proof (rule untouched)
    fix s d
    assume "s \<in> set (extract_steps urljoin now el)"
    then show "map_of (fst (s d)) ''Inquiry Time'' = map_of d ''Inquiry Time''"
      by (cases rule: extract_steps_cases)
         (simp_all add: map_of_other_step time_step_def map_of_update assms split: option.split)
  qed
  then show ?thesis by (simp add: initial_data_def)
qed

lemma absent_time_2:
  assumes "find_string [''span'', ''div''] [''ago'', ''before'', ''hour'', ''day'', ''week'', ''month''] el = None"
  shows "map_of (fst (run_steps (extract_steps urljoin now el) (initial_data now))) ''Inquiry Date'' = Some []"
proof -
  have "map_of (fst (run_steps (extract_steps urljoin now el) (initial_data now))) ''Inquiry Date'' = map_of (initial_data now) ''Inquiry Date''"
  proof (rule untouched)
    fix s d
    assume "s \<in> set (extract_steps urljoin now el)"
    then show "map_of (fst (s d)) ''Inquiry Date'' = map_of d ''Inquiry Date''"
      by (cases rule: extract_steps_cases)
         (simp_all add: map_of_other_step time_step_def map_of_update assms split: option.split)
  qed
  then show ?thesis by (simp add: initial_data_def)
qed

lemma absent_quotes:
  assumes "find_string [''span'', ''div''] [''quote'', ''left''] el = None"
  shows "map_of (fst (run_steps (extract_steps urljoin now el) (initial_data now))) ''Quotes Left'' = Some []"
proof -
  have "map_of (fst (run_steps (extract_steps urljoin now el) (initial_data now))) ''Quotes Left'' = map_of (initial_data now) ''Quotes Left''"
  proof (rule untouched)
    fix s d
    assume "s \<in> set (extract_steps urljoin now el)"
    then show "map_of (fst (s d)) ''Quotes Left'' = map_of d ''Quotes Left''"
      by (cases rule: extract_steps_cases)
         (simp_all add: map_of_other_step quotes_step_def map_of_update assms split: option.split)
  qed
  then show ?thesis by (simp add: initial_data_def)
qed

lemma absent_country:
  assumes "find_class [''span'', ''div''] [''country'', ''flag''] el = None"
  shows "map_of (fst (run_steps (extract_steps urljoin now el) (initial_data now))) ''Country'' = Some []"
proof -
  have "map_of (fst (run_steps (extract_steps urljoin now el) (initial_data now))) ''Country'' = map_of (initial_data now) ''Country''"
  proof (rule untouched)
    fix s d
    assume "s \<in> set (extract_steps urljoin now el)"
    then show "map_of (fst (s d)) ''Country'' = map_of d ''Country''"
      by (cases rule: extract_steps_cases)
         (simp_all add: map_of_other_step class_text_step_def map_of_update assms split: option.split)
  qed
  then show ?thesis by (simp add: initial_data_def)
qed

lemma absent_quantity:
  assumes "find_string [''span'', ''div''] [''piece'', ''pcs'', ''unit'', ''box'', ''kg'', ''ton''] el = None"
  shows "map_of (fst (run_steps (extract_steps urljoin now el) (initial_data now))) ''Quantity Required'' = Some []"
proof -
  have "map_of (fst (run_steps (extract_steps urljoin now el) (initial_data now))) ''Quantity Required'' = map_of (initial_data now) ''Quantity Required''"
  proof (rule untouched)
    fix s d
    assume "s \<in> set (extract_steps urljoin now el)"
    then show "map_of (fst (s d)) ''Quantity Required'' = map_of d ''Quantity Required''"
      by (cases rule: extract_steps_cases)
         (simp_all add: map_of_other_step quantity_step_def map_of_update assms split: option.split)
  qed
  then show ?thesis by (simp add: initial_data_def)
qed

lemma absent_email:
  assumes "find_class [''span'', ''div'', ''i''] [''email'', ''confirm'', ''verified''] el = None"
  shows "map_of (fst (run_steps (extract_steps urljoin now el) (initial_data now))) ''Email Confirmed'' = Some ''No''"
proof -
  have "map_of (fst (run_steps (extract_steps urljoin now el) (initial_data now))) ''Email Confirmed'' = map_of (initial_data now) ''Email Confirmed''"
  proof (rule untouched)
    fix s d
    assume "s \<in> set (extract_steps urljoin now el)"
    then show "map_of (fst (s d)) ''Email Confirmed'' = map_of d ''Email Confirmed''"
      by (cases rule: extract_steps_cases)
         (simp_all add: map_of_other_step flag_step_def map_of_update assms split: option.split)
  qed
  then show ?thesis by (simp add: initial_data_def)
qed

lemma absent_experienced:
  assumes "find_class [''span'', ''div'', ''i''] [''experienced'', ''veteran'', ''star''] el = None"
  shows "map_of (fst (run_steps (extract_steps urljoin now el) (initial_data now))) ''Experienced Buyer'' = Some ''No''"
proof -
  have "map_of (fst (run_steps (extract_steps urljoin now el) (initial_data now))) ''Experienced Buyer'' = map_of (initial_data now) ''Experienced Buyer''"
  proof (rule untouched)
    fix s d
    assume "s \<in> set (extract_steps urljoin now el)"
    then show "map_of (fst (s d)) ''Experienced Buyer'' = map_of d ''Experienced Buyer''"
      by (cases rule: extract_steps_cases)
         (simp_all add: map_of_other_step flag_step_def map_of_update assms split: option.split)
  qed
  then show ?thesis by (simp add: initial_data_def)
qed

lemma absent_complete:
  assumes "find_class [''span'', ''div'', ''i''] [''complete'', ''order'', ''rfq''] el = None"
  shows "map_of (fst (run_steps (extract_steps urljoin now el) (initial_data now))) ''Complete Order via RFQ'' = Some ''No''"
proof -
  have "map_of (fst (run_steps (extract_steps urljoin now el) (initial_data now))) ''Complete Order via RFQ'' = map_of (initial_data now) ''Complete Order via RFQ''"
  proof (rule untouched)
    fix s d
    assume "s \<in> set (extract_steps urljoin now el)"
    then show "map_of (fst (s d)) ''Complete Order via RFQ'' = map_of d ''Complete Order via RFQ''"
      by (cases rule: extract_steps_cases)
         (simp_all add: map_of_other_step flag_step_def map_of_update assms split: option.split)
  qed
  then show ?thesis by (simp add: initial_data_def)
qed

lemma absent_typical:
  assumes "find_class [''span'', ''div'', ''i''] [''typical'', ''reply'', ''response''] el = None"
  shows "map_of (fst (run_steps (extract_steps urljoin now el) (initial_data now))) ''Typical Replies'' = Some ''No''"
proof -
  have "map_of (fst (run_steps (extract_steps urljoin now el) (initial_data now))) ''Typical Replies'' = map_of (initial_data now) ''Typical Replies''"
  proof (rule untouched)
    fix s d
    assume "s \<in> set (extract_steps urljoin now el)"
    then show "map_of (fst (s d)) ''Typical Replies'' = map_of d ''Typical Replies''"
      by (cases rule: extract_steps_cases)
         (simp_all add: map_of_other_step flag_step_def map_of_update assms split: option.split)
  qed
  then show ?thesis by (simp add: initial_data_def)
qed

lemma absent_interactive:
  assumes "find_class [''span'', ''div'', ''i''] [''interactive'', ''active'', ''online''] el = None"
  shows "map_of (fst (run_steps (extract_steps urljoin now el) (initial_data now))) ''Interactive User'' = Some ''No''"
proof -
  have "map_of (fst (run_steps (extract_steps urljoin now el) (initial_data now))) ''Interactive User'' = map_of (initial_data now) ''Interactive User''"
  proof (rule untouched)
    fix s d
    assume "s \<in> set (extract_steps urljoin now el)"
    then show "map_of (fst (s d)) ''Interactive User'' = map_of d ''Interactive User''"
      by (cases rule: extract_steps_cases)
         (simp_all add: map_of_other_step flag_step_def map_of_update assms split: option.split)
  qed
  then show ?thesis by (simp add: initial_data_def)
qed

lemma defaults_extract:
  "defaults_where_absent el (fst (run_steps (extract_steps urljoin now el) (initial_data now)))"
  unfolding defaults_where_absent_def
  by (intro conjI impI)
     (simp_all only: absent_link_1 absent_link_2 absent_buyer absent_image absent_time_1
        absent_time_2 absent_quotes absent_country absent_quantity absent_email
        absent_experienced absent_complete absent_typical absent_interactive)

section \<open>The sample inputs, evaluated\<close>

lemmas eval_defs =
  extract_rfq_data_def extract_steps_def initial_data_def link_step_def title_step_def
  class_text_step_def image_step_def time_step_def quotes_step_def quantity_step_def
  flag_step_def find_class_def find_string_def find_named_def find_a_href_def named_def
  has_class_def has_string_def search_words_def get_text_def strip_def lstrip_def rstrip_def
  isspace_def isdigit_def base_url_def parse_time_ago_def lower_def lower_char_def
  search_digits_def match_time_here_def sample_urljoin_def

lemma extract_shirts:
  "extract_rfq_data sample_urljoin now shirts_card = Inr (shirts_record now)"
  by (simp add: eval_defs shirts_card_def shirts_record_def)

section \<open>Properties of scrape_rfq_page\<close>

lemma scan_containers_records:
  assumes "scan_containers urljoin now cs acc = Inr out" and "data \<in> set out"
  shows "data \<in> set acc \<or>
         (\<exists>c\<in>set cs. find_a_href c \<noteq> None \<and> extract_rfq_data urljoin now c = Inr data \<and>
                      (\<exists>title. map_of data ''Title'' = Some title \<and> title \<noteq> []))"
  using assms
proof (induction cs arbitrary: acc)
  case Nil
  then show ?case by simp
next
  case (Cons c cs)
  show ?case
  proof (cases "find_a_href c = None")
    case True
    then have "scan_containers urljoin now cs acc = Inr out" using Cons.prems(1) by simp
    from Cons.IH[OF this Cons.prems(2)] show ?thesis by auto
  next
    case False
    obtain d where d: "extract_rfq_data urljoin now c = Inr d"
      by (simp add: extract_rfq_data_run)
    show ?thesis
    proof (cases "map_of d ''Title''")
      case None
      then show ?thesis using Cons.prems(1) False d by simp
    next
      case (Some title)
      show ?thesis
      proof (cases "title = []")
        case True
        then have "scan_containers urljoin now cs acc = Inr out"
          using Cons.prems(1) False d Some by simp
        from Cons.IH[OF this Cons.prems(2)] show ?thesis by auto
      next
        case nonempty: False
        then have "scan_containers urljoin now cs (acc @ [d]) = Inr out"
          using Cons.prems(1) False d Some by simp
        from Cons.IH[OF this Cons.prems(2)]
        consider "data \<in> set acc" | "data = d"
          | "\<exists>c\<in>set cs. find_a_href c \<noteq> None \<and> extract_rfq_data urljoin now c = Inr data \<and>
                      (\<exists>title. map_of data ''Title'' = Some title \<and> title \<noteq> [])"
          by auto
        then show ?thesis
        proof cases
          case 1
          then show ?thesis by simp
        next
          case 2
          then show ?thesis using False d Some nonempty by simp
        next
          case 3
          then show ?thesis by auto
        qed
      qed
    qed
  qed
qed

lemma scrape_rfq_page_scan:
  assumes "data \<in> set (fst (scrape_rfq_page session parse urljoin clock url w))"
  shows "\<exists>now soup rfq_data. scan_page urljoin now soup = Inr rfq_data \<and> data \<in> set rfq_data"
proof -
  obtain r evs w' where g: "get_page session url 3 w = (r, evs, w')"
    by (cases "get_page session url 3 w") auto
  show ?thesis
  proof (cases r)
    case (Inl e)
    then show ?thesis using assms g by (simp add: scrape_rfq_page_def)
  next
    case (Inr resp)
    show ?thesis
    proof (cases resp)
      case None
      then show ?thesis using assms g Inr by (simp add: scrape_rfq_page_def)
    next
      case (Some content)
      show ?thesis
      proof (cases "parse content")
        case (Inl e)
        then show ?thesis using assms g \<open>r = Inr resp\<close> Some by (simp add: scrape_rfq_page_def)
      next
        case soup: (Inr soup)
        show ?thesis
        proof (cases "scan_page urljoin (clock w') soup")
          case (Inl e)
          then show ?thesis using assms g \<open>r = Inr resp\<close> Some soup
            by (simp add: scrape_rfq_page_def)
        next
          case (Inr rfq_data)
          then have "data \<in> set rfq_data" using assms g \<open>r = Inr resp\<close> Some soup
            by (simp add: scrape_rfq_page_def)
          then show ?thesis using Inr by blast
        qed
      qed
    qed
  qed
qed

text \<open>
  C4: every record that \<open>scrape_rfq_page\<close> returns has the sixteen columns as its keys, in
  their order, each with a string as its value; its title is not empty; each of its
  flags is \<open>Yes\<close> or \<open>No\<close>; and it is the record extracted from an element of the page,
  with the default of a column (the empty string, \<open>No\<close> for a flag) wherever the search
  for that column found nothing in the element.
\<close>

theorem scrape_rfq_page_records:
  assumes "data \<in> set (fst (scrape_rfq_page session parse urljoin clock url w))"
  shows "map fst data = required_columns \<and>
         (\<exists>title. map_of data ''Title'' = Some title \<and> title \<noteq> []) \<and>
         (\<forall>k\<in>set flag_columns. map_of data k = Some ''Yes'' \<or> map_of data k = Some ''No'') \<and>
         (\<exists>now container. extract_rfq_data urljoin now container = Inr data \<and>
                          defaults_where_absent container data)"
proof -
  from scrape_rfq_page_scan[OF assms] obtain now soup rfq_data where
    "scan_page urljoin now soup = Inr rfq_data" and "data \<in> set rfq_data" by blast
  then have "\<exists>c\<in>set (rfq_containers soup). find_a_href c \<noteq> None \<and>
                 extract_rfq_data urljoin now c = Inr data \<and>
                 (\<exists>title. map_of data ''Title'' = Some title \<and> title \<noteq> [])"
    using scan_containers_records[of urljoin now "rfq_containers soup" "[]" rfq_data data]
    by (simp add: scan_page_def)
  then obtain c where e: "extract_rfq_data urljoin now c = Inr data"
    and t: "\<exists>title. map_of data ''Title'' = Some title \<and> title \<noteq> []" by blast
  have data: "data = fst (run_steps (extract_steps urljoin now c) (initial_data now))"
    using e by (simp add: extract_rfq_data_run)
  have "map fst data = required_columns" unfolding data by (rule keys_extract)
  moreover have "\<forall>k\<in>set flag_columns. map_of data k = Some ''Yes'' \<or> map_of data k = Some ''No''"
    unfolding data using flags_extract by blast
  moreover have "defaults_where_absent c data" unfolding data by (rule defaults_extract)
  ultimately show ?thesis using t e by blast
qed


lemma get_page_site:
  "map_of pages url = Some page \<Longrightarrow>
   get_page (site pages) url 3 w = (Inr (Some page), [Request url], Suc w)"
  by (simp add: get_page_def range_py_def site_def upt_conv_Cons)

lemma containers_two:
  "rfq_containers (document [shirts_card, bare_item]) = [shirts_card, bare_item]"
  by (simp add: rfq_containers_def find_all_class_def document_def shirts_card_def bare_item_def
      named_def has_class_def search_words_def)

lemma anchor_shirts: "find_a_href shirts_card \<noteq> None"
  by (simp add: find_a_href_def shirts_card_def named_def)

lemma anchor_bare: "find_a_href bare_item = None"
  by (simp add: find_a_href_def bare_item_def named_def)

lemma scan_skip:
  "find_a_href c = None \<Longrightarrow>
   scan_containers urljoin now (c # rest) acc = scan_containers urljoin now rest acc"
  by simp

lemma scan_keep:
  assumes "find_a_href c \<noteq> None" and "extract_rfq_data urljoin now c = Inr d"
    and "map_of d ''Title'' = Some title" and "title \<noteq> []"
  shows "scan_containers urljoin now (c # rest) acc = scan_containers urljoin now rest (acc @ [d])"
proof -
  obtain y where "find_a_href c = Some y" using assms(1) by blast
  then show ?thesis using assms(2-4) by simp
qed

lemma title_shirts: "map_of (shirts_record now) ''Title'' = Some ''Cotton shirts''"
  by (simp add: shirts_record_def)

lemma scan_two:
  "scan_page sample_urljoin now (document [shirts_card, bare_item]) = Inr [shirts_record now]"
proof -
  have "scan_containers sample_urljoin now [shirts_card, bare_item] [] =
        scan_containers sample_urljoin now [bare_item] ([] @ [shirts_record now])"
    by (rule scan_keep[OF anchor_shirts extract_shirts title_shirts]) simp
  also have "\<dots> = scan_containers sample_urljoin now [] ([] @ [shirts_record now])"
    by (rule scan_skip[OF anchor_bare])
  finally show ?thesis by (simp add: scan_page_def containers_two)
qed

theorem scrape_rfq_page_records_witness:
  "fst (scrape_rfq_page (site [(''u'', document [shirts_card, bare_item])]) parsed
          sample_urljoin sample_clock ''u'' 0) = [shirts_record sample_now] \<and>
   map fst (shirts_record sample_now) = required_columns \<and>
   (\<exists>title. map_of (shirts_record sample_now) ''Title'' = Some title \<and> title \<noteq> [])"
proof -
  have ev: "fst (scrape_rfq_page (site [(''u'', document [shirts_card, bare_item])]) parsed
          sample_urljoin sample_clock ''u'' 0) = [shirts_record sample_now]"
    by (simp add: scrape_rfq_page_def get_page_site parsed_def scan_two sample_clock_def)
  then have "shirts_record sample_now \<in> set (fst (scrape_rfq_page
          (site [(''u'', document [shirts_card, bare_item])]) parsed
          sample_urljoin sample_clock ''u'' 0))"
    by simp
  from scrape_rfq_page_records[OF this] ev show ?thesis by simp
qed

section \<open>Elements without an anchor\<close>

lemma no_anchor_no_href: "find_named [''a''] el = None \<Longrightarrow> find_a_href el = None"
  unfolding find_named_def find_a_href_def find_None_iff by blast

text \<open>
  C8 (as amended): for a node that contains no anchor, \<open>extract_rfq_data\<close> returns a
  record with an empty inquiry URL and an empty RFQ id; and such a node among the
  candidates of a page adds nothing to the records of the page, because the scan skips
  a candidate without an anchor that has an \<open>href\<close> before it extracts anything,
  whatever the title of the node.
\<close>

theorem no_anchor_record:
  assumes "find_named [''a''] el = None"
  shows "(\<exists>data. extract_rfq_data urljoin now el = Inr data \<and>
                map_of data ''Inquiry URL'' = Some [] \<and> map_of data ''RFQ ID'' = Some []) \<and>
         (\<forall>rest acc. scan_containers urljoin now (el # rest) acc =
                      scan_containers urljoin now rest acc)"
proof -
  have h: "find_a_href el = None" by (rule no_anchor_no_href[OF assms])
  have "map_of (fst (run_steps (extract_steps urljoin now el) (initial_data now))) ''Inquiry URL'' = Some []"
    and "map_of (fst (run_steps (extract_steps urljoin now el) (initial_data now))) ''RFQ ID'' = Some []"
    by (rule absent_link_1[OF h], rule absent_link_2[OF h])
  then show ?thesis using h by (simp add: extract_rfq_data_run)
qed

lemma extract_bare:
  "extract_rfq_data urljoin now bare_item = Inr (bare_record now)"
  by (simp add: eval_defs bare_item_def bare_record_def)

lemma no_anchor_bare: "find_named [''a''] bare_item = None"
  by (simp add: find_named_def bare_item_def named_def)

theorem no_anchor_record_witness:
  "find_named [''a''] bare_item = None \<and>
   extract_rfq_data sample_urljoin sample_now bare_item = Inr (bare_record sample_now) \<and>
   map_of (bare_record sample_now) ''Inquiry URL'' = Some [] \<and>
   map_of (bare_record sample_now) ''RFQ ID'' = Some [] \<and>
   scan_containers sample_urljoin sample_now [bare_item, shirts_card] [] =
     scan_containers sample_urljoin sample_now [shirts_card] []"
  using no_anchor_record[OF no_anchor_bare, of sample_urljoin sample_now]
  by (simp add: extract_bare no_anchor_bare)

text \<open>
  The claim C8 as it is written fails on the code: the element \<open>bare_item\<close> contains no
  anchor, yet the record extracted from it has the title of its heading, so it is not
  an empty title that keeps it out of the records of a page.
\<close>

theorem no_anchor_title_counterexample:
  "find_named [''a''] bare_item = None \<and>
   extract_rfq_data sample_urljoin sample_now bare_item = Inr (bare_record sample_now) \<and>
   map_of (bare_record sample_now) ''Title'' = Some ''Wanted: bolts'' \<and>
   scan_page sample_urljoin sample_now (document [bare_item]) = Inr []"
proof -
  have "rfq_containers (document [bare_item]) = [bare_item]"
    by (simp add: rfq_containers_def find_all_class_def document_def bare_item_def
      named_def has_class_def search_words_def)
  then have "scan_page sample_urljoin sample_now (document [bare_item]) =
      scan_containers sample_urljoin sample_now [bare_item] []"
    by (simp only: scan_page_def)
  also have "\<dots> = scan_containers sample_urljoin sample_now [] []"
    by (rule scan_skip[OF anchor_bare])
  finally have "scan_page sample_urljoin sample_now (document [bare_item]) = Inr []"
    by simp
  then show ?thesis
    by (simp add: extract_bare no_anchor_bare) (simp add: bare_record_def)
qed

section \<open>Texts without a number and a unit\<close>














section \<open>The fields of a record, one by one\<close>





























section \<open>Properties of scrape_all_pages\<close>

















section \<open>Properties of get_all_page_urls\<close>










section \<open>Properties of save_to_csv\<close>

lemma to_csv_shown: "to_csv df = columns df # map (map shown) (cells df)"
  unfolding to_csv_def shown_def by simp

lemma agrees_DataFrame: "agrees data (DataFrame data)"
proof -
  let ?cols = "rev (remdups (rev (concat (map (map fst) data))))"
  have "\<forall>d\<in>set data. set (map fst d) \<subseteq> set ?cols" by auto
  then show ?thesis
    by (simp add: agrees_def DataFrame_def Let_def comp_def)
qed

lemma shown_absent: "c \<notin> set (map fst d) \<Longrightarrow> shown (map_of d c) = []"
  by (simp add: shown_def map_of_eq_None_iff[THEN iffD2])

lemma agrees_add_column:
  assumes "agrees data df" and "col \<notin> set (columns df)"
  shows "agrees data (add_column col [] df)"
proof -
  have absent: "\<And>d. d \<in> set data \<Longrightarrow> shown (map_of d col) = []"
  proof -
    fix d assume "d \<in> set data"
    then have "set (map fst d) \<subseteq> set (columns df)" using assms(1) by (simp add: agrees_def)
    then have "col \<notin> set (map fst d)" using assms(2) by blast
    then show "shown (map_of d col) = []" by (rule shown_absent)
  qed
  have "map (map shown) (cells (add_column col [] df)) =
        map (\<lambda>r. r @ [[]]) (map (map shown) (cells df))"
    by (simp add: add_column_def shown_def comp_def)
  also have "\<dots> = map (\<lambda>r. r @ [[]]) (map (\<lambda>d. map (\<lambda>c. shown (map_of d c)) (columns df)) data)"
    using assms(1) by (simp add: agrees_def)
  also have "\<dots> = map (\<lambda>d. map (\<lambda>c. shown (map_of d c)) (columns df @ [col])) data"
    using absent by (simp add: comp_def)
  finally have "map (map shown) (cells (add_column col [] df)) =
        map (\<lambda>d. map (\<lambda>c. shown (map_of d c)) (columns (add_column col [] df))) data"
    by (simp add: add_column_def)
  moreover have "distinct (columns (add_column col [] df))"
    using assms by (simp add: agrees_def add_column_def)
  moreover have "\<forall>d\<in>set data. set (map fst d) \<subseteq> set (columns (add_column col [] df))"
    using assms(1) by (auto simp: agrees_def add_column_def)
  ultimately show ?thesis by (simp add: agrees_def)
qed

lemma agrees_ensure_columns:
  "agrees data df \<Longrightarrow>
   agrees data (ensure_columns cols df) \<and>
   set cols \<union> set (columns df) \<subseteq> set (columns (ensure_columns cols df))"
proof (induction cols arbitrary: df)
  case Nil
  then show ?case by simp
next
  case (Cons col cols)
  show ?case
  proof (cases "col \<in> set (columns df)")
    case True
    then show ?thesis using Cons.IH[OF Cons.prems] by auto
  next
    case False
    have a: "agrees data (add_column col [] df)"
      by (rule agrees_add_column[OF Cons.prems False])
    have "set (columns (add_column col [] df)) = insert col (set (columns df))"
      by (simp add: add_column_def)
    then show ?thesis using Cons.IH[OF a] False by auto
  qed
qed

lemma index_of_nth:
  "c \<in> set cols \<Longrightarrow>
   length (takeWhile (\<lambda>x. x \<noteq> c) cols) < length cols \<and>
   cols ! length (takeWhile (\<lambda>x. x \<noteq> c) cols) = c"
  by (induction cols) auto

lemma select_row:
  assumes "map shown row = map f cols" and "set req \<subseteq> set cols"
  shows "map shown (map (\<lambda>c. row ! the (index_of c cols)) req) = map f req"
proof -
  have len: "length row = length cols" using assms(1) by (metis length_map)
  have "\<And>c. c \<in> set req \<Longrightarrow> shown (row ! the (index_of c cols)) = f c"
  proof -
    fix c assume "c \<in> set req"
    then have c: "c \<in> set cols" using assms(2) by blast
    let ?n = "length (takeWhile (\<lambda>x. x \<noteq> c) cols)"
    from index_of_nth[OF c] have n: "?n < length cols" and v: "cols ! ?n = c" by simp_all
    have "shown (row ! ?n) = map shown row ! ?n" using n len by simp
    also have "\<dots> = f (cols ! ?n)" using assms(1) n by simp
    finally show "shown (row ! the (index_of c cols)) = f c"
      using c v by (simp add: index_of_def)
  qed
  then show ?thesis by simp
qed


lemma select_rows:
  assumes "agrees data df" and "set req \<subseteq> set (columns df)"
  shows "map (map shown) (map (\<lambda>row. map (\<lambda>c. row ! the (index_of c (columns df))) req) (cells df)) =
         map (\<lambda>d. map (\<lambda>c. shown (map_of d c)) req) data"
proof (rule nth_equalityI)
  have eq: "map (map shown) (cells df) =
        map (\<lambda>d. map (\<lambda>c. shown (map_of d c)) (columns df)) data"
    using assms(1) by (simp add: agrees_def)
  then have len: "length (cells df) = length data" by (metis length_map)
  show "length (map (map shown) (map (\<lambda>row. map (\<lambda>c. row ! the (index_of c (columns df))) req) (cells df))) =
        length (map (\<lambda>d. map (\<lambda>c. shown (map_of d c)) req) data)"
    using len by simp
  fix i
  assume "i < length (map (map shown) (map (\<lambda>row. map (\<lambda>c. row ! the (index_of c (columns df))) req) (cells df)))"
  then have i: "i < length (cells df)" by simp
  have "map (map shown) (cells df) ! i =
        map (\<lambda>d. map (\<lambda>c. shown (map_of d c)) (columns df)) data ! i"
    by (simp only: eq)
  then have row: "map shown (cells df ! i) = map (\<lambda>c. shown (map_of (data ! i) c)) (columns df)"
    using i len by simp
  show "map (map shown) (map (\<lambda>row. map (\<lambda>c. row ! the (index_of c (columns df))) req) (cells df)) ! i =
        map (\<lambda>d. map (\<lambda>c. shown (map_of d c)) req) data ! i"
    using i len select_row[OF row assms(2)] by simp
qed

text \<open>
  C9 (as amended): for every list of records that is not empty, \<open>save_to_csv\<close> writes a
  table whose first line is the sixteen columns in their fixed order and whose other
  lines are one for each record, in order, each with sixteen fields: for each column the
  value of the record, and an empty field where the record has no value for the column.
  No column is ever absent.
\<close>

theorem save_to_csv_table:
  assumes "data \<noteq> []"
  shows "\<exists>df. save_to_csv data =
           Inr (Some (required_columns #
                        map (\<lambda>d. map (\<lambda>c. shown (map_of d c)) required_columns) data, df)) \<and>
              columns df = required_columns"
proof -
  let ?df = "ensure_columns required_columns (DataFrame data)"
  from agrees_ensure_columns[OF agrees_DataFrame, of data required_columns]
  have a: "agrees data ?df" and sub: "set required_columns \<subseteq> set (columns ?df)" by auto
  let ?sel = "\<lparr>columns = required_columns,
              cells = map (\<lambda>row. map (\<lambda>c. row ! the (index_of c (columns ?df))) required_columns)
                        (cells ?df)\<rparr>"
  have s: "select_columns required_columns ?df = Inr ?sel"
    using sub by (simp add: select_columns_def)
  have "to_csv ?sel = required_columns #
          map (\<lambda>d. map (\<lambda>c. shown (map_of d c)) required_columns) data"
    using select_rows[OF a sub] by (simp add: to_csv_shown)
  then have "save_to_csv data =
           Inr (Some (required_columns #
                        map (\<lambda>d. map (\<lambda>c. shown (map_of d c)) required_columns) data, ?sel))"
    using assms s by (simp add: save_to_csv_def)
  moreover have "columns ?sel = required_columns" by simp
  ultimately show ?thesis by blast
qed

theorem save_to_csv_table_witness:
  "[[(''Title'', ''Bolts''), (''Note'', ''n'')], initial_data sample_now] \<noteq> [] \<and>
   (\<exists>df. save_to_csv [[(''Title'', ''Bolts''), (''Note'', ''n'')], initial_data sample_now] =
      Inr (Some
        ([required_columns,
          ['''', ''Bolts'', '''', '''', '''', '''', '''', '''', '''', '''', '''', '''', '''', '''',
           '''', ''''],
          ['''', '''', '''', '''', '''', '''', '''', '''', ''No'', ''No'', ''No'', ''No'', ''No'',
           '''', '''', strftime_dmY sample_now]], df)))"
proof -
  have ne: "[[(''Title'', ''Bolts''), (''Note'', ''n'')], initial_data sample_now] \<noteq> []" by simp
  from save_to_csv_table[OF ne] obtain df where
    "save_to_csv [[(''Title'', ''Bolts''), (''Note'', ''n'')], initial_data sample_now] =
       Inr (Some (required_columns #
          map (\<lambda>d. map (\<lambda>c. shown (map_of d c)) required_columns)
            [[(''Title'', ''Bolts''), (''Note'', ''n'')], initial_data sample_now], df))"
    by blast
  moreover have "map (\<lambda>d. map (\<lambda>c. shown (map_of d c)) required_columns)
            [[(''Title'', ''Bolts''), (''Note'', ''n'')], initial_data sample_now] =
        [['''', ''Bolts'', '''', '''', '''', '''', '''', '''', '''', '''', '''', '''', '''', '''',
           '''', ''''],
          ['''', '''', '''', '''', '''', '''', '''', '''', ''No'', ''No'', ''No'', ''No'', ''No'',
           '''', '''', strftime_dmY sample_now]]"
    by (simp add: required_columns_def shown_def initial_data_def)
  ultimately show ?thesis by simp
qed

text \<open>
  The claim C9 as it is written fails on the code: for the empty list of records
  \<open>save_to_csv\<close> returns \<open>None\<close> and writes no table at all, not even the line of the
  columns.
\<close>

theorem save_to_csv_empty_counterexample:
  "save_to_csv [] = Inr None"
  by (simp add: save_to_csv_def)


end
